theory Spec2Isabelle
  imports Main "HOL-Library.Word" "HOL-Library.AList"
begin

section \<open>Data model of the muxet HTTP client (package v1)\<close>

text \<open>
  Go values are modelled as follows.
  \<^item> \<open>int\<close> (64-bit platform) and \<open>time.Duration\<close> (an \<open>int64\<close> of nanoseconds) are
    64-bit words; \<open>+\<close> and \<open>*\<close> wrap, and the signed reading is \<open>sint\<close>.
  \<^item> \<open>string\<close> and \<open>[]byte\<close> contents are byte sequences (\<open>char list\<close>).
  \<^item> Objects that are shared by reference (maps, the backing arrays of byte slices,
    \<open>*http.Response\<close> objects, the variables an output target points to) live in an explicit
    store, addressed by natural numbers. A Go map is an association list with distinct keys;
    \<open>range\<close> visits it in list order (Go leaves the order unspecified).
  \<^item> Every collaborator (transport, hooks, logger) is a function on the store, which also
    carries their private state in the field \<open>world\<close>.
\<close>

type_synonym bytes = string
type_synonym go_int = "64 word"
type_synonym duration = "64 word"
type_synonym addr = nat

text \<open>
  Errors. \<open>Err\<close> is an error value made by a collaborator or by the standard library; the
  other constructors are the \<open>fmt.Errorf\<close> calls of \<open>muxet.go\<close>, one per format string.
  The verb \<open>%w\<close> wraps its argument, which is \<open>nil\<close> when no error was recorded.
\<close>

datatype error =
    Err string
  | InvalidRequestURL error
  | InvalidBaseURL error
  | BeforeRequestHookFailed error
  | MarshalBodyFailed error
  | CreateRequestFailed error
  | ReadResponseBodyFailed error
  | AfterResponseHookFailed error
  | HTTPStatus go_int bytes
  | DecodeResponseFailed error
  | RequestFailedAfter go_int "error option"

datatype go_context = WithTimeout duration | CallerContext nat

text \<open>
  An \<open>io.Reader\<close> is the data it still has to deliver and the way the stream ends
  (\<open>None\<close> for \<open>io.EOF\<close>, \<open>Some e\<close> for a read error). \<open>io.ReadAll\<close> reads until EOF or an
  error, returns what it read, and leaves the reader drained.
\<close>

datatype reader = Reader bytes "error option"

fun io_ReadAll :: "reader \<Rightarrow> (bytes \<times> error option) \<times> reader" where
  "io_ReadAll (Reader bs e) = ((bs, e), Reader [] e)"

record http_Request =
  hreq_ctx :: "go_context option"
  hreq_Method :: string
  hreq_URL :: string
  hreq_Header :: "(string \<times> string list) list"
  hreq_Body :: "bytes option"

record http_Response =
  http_StatusCode :: go_int
  http_Header :: "(string \<times> string list) list"
  http_Body :: "reader option"

record ('a, 'w) store =
  st_maps :: "addr \<Rightarrow> (string \<times> string) list"
  st_bytes :: "addr \<Rightarrow> bytes"
  st_resp :: "addr \<Rightarrow> http_Response"
  st_strings :: "addr \<Rightarrow> string"
  st_values :: "addr \<Rightarrow> 'a"
  st_next :: addr
  world :: 'w

text \<open>\<open>Request\<close> and \<open>Response\<close>: the descriptors passed to the hooks.\<close>

record 'a Request =
  req_Method :: string
  req_URL :: string
  req_Headers :: "addr option"
  req_Body :: "'a option"
  req_Context :: "go_context option"

record Response =
  resp_StatusCode :: go_int
  resp_Headers :: "(string \<times> string list) list"
  resp_Body :: "addr option"
  resp_Raw :: addr

datatype log_line =
    LogRequest string string go_int
  | LogRequestFailed error

text \<open>
  \<open>Client\<close>. The transport \<open>client\<close> returns the pair of \<open>Do\<close> and the new store. A hook is
  given a pointer to its descriptor: it returns the descriptor as it leaves it, its error
  and the new store. \<open>None\<close> stands for a \<open>nil\<close> interface, function or map.
\<close>

record ('a, 'w) Client =
  client :: "(('a, 'w) store \<Rightarrow> http_Request \<Rightarrow> (addr option \<times> error option) \<times> ('a, 'w) store) option"
  headers :: "addr option"
  timeout :: duration
  BaseURL :: string
  logger :: "(log_line \<Rightarrow> ('a, 'w) store \<Rightarrow> ('a, 'w) store) option"
  maxRetries :: go_int
  backoff :: duration
  BeforeRequest :: "(('a, 'w) store \<Rightarrow> 'a Request \<Rightarrow> error option \<times> 'a Request \<times> ('a, 'w) store) option"
  AfterResponse :: "(('a, 'w) store \<Rightarrow> Response \<Rightarrow> error option \<times> Response \<times> ('a, 'w) store) option"

text \<open>
  The functions of the Go standard library that \<open>DoRequest\<close> calls and whose results it
  only passes on are parameters: URL parsing and reference resolution (\<open>net/url\<close>), JSON
  encoding and decoding, the validation done by \<open>http.NewRequestWithContext\<close> and the
  canonical form of a header key. \<open>json_Unmarshal\<close> is given the bytes and the present value
  of the target and returns its error and the value it leaves in the target.
\<close>

record ('a, 'u) stdlib =
  url_Parse :: "string \<Rightarrow> error + 'u"
  url_IsAbs :: "'u \<Rightarrow> bool"
  url_ResolveReference :: "'u \<Rightarrow> 'u \<Rightarrow> 'u"
  url_String :: "'u \<Rightarrow> string"
  json_Marshal :: "'a \<Rightarrow> error + bytes"
  json_Unmarshal :: "bytes \<Rightarrow> 'a \<Rightarrow> error option \<times> 'a"
  NewRequest_check :: "go_context option \<Rightarrow> string \<Rightarrow> string \<Rightarrow> error option"
  CanonicalMIMEHeaderKey :: "string \<Rightarrow> string"

text \<open>
  The output target \<open>out\<close>: a \<open>*string\<close> (possibly a nil pointer of that type) or a pointer
  to any other variable, which \<open>json.Unmarshal\<close> fills.
\<close>

datatype out_target = StringPtr "addr option" | OtherPtr addr

text \<open>
  What a call does to its collaborators, in order. The trace is kept by the executor and
  is out of the collaborators' reach.
\<close>

datatype event =
    CallBeforeRequest
  | CallMarshal
  | CallLogf log_line
  | CallDo http_Request "addr option" "error option"
  | CallSleep duration
  | CallAfterResponse addr
  | CallUnmarshal
  | CallClose addr
  | CallCancel

datatype deferred_call = DeferCancel | DeferClose addr

datatype result = Return "addr option" "error option" | Panic

text \<open>The local variables of \<open>DoRequest\<close>, the store and the trace.\<close>

record ('a, 'w) exec =
  heap :: "('a, 'w) store"
  trace :: "event list"
  resp :: "addr option"
  lastErr :: "error option"
  attempt :: go_int
  deferred :: "deferred_call list"

datatype ('a, 'w) flow = Continue "('a, 'w) exec" | Exit result "('a, 'w) exec"

section \<open>Fluent setters\<close>

definition SetTimeout :: "duration \<Rightarrow> ('a, 'w) Client \<Rightarrow> ('a, 'w) Client" where
  "SetTimeout d c = c\<lparr>timeout := d\<rparr>"

definition SetBaseURL :: "string \<Rightarrow> ('a, 'w) Client \<Rightarrow> ('a, 'w) Client" where
  "SetBaseURL base c = c\<lparr>BaseURL := base\<rparr>"

definition SetMaxRetries :: "go_int \<Rightarrow> ('a, 'w) Client \<Rightarrow> ('a, 'w) Client" where
  "SetMaxRetries n c = c\<lparr>maxRetries := n\<rparr>"

definition SetBackoff :: "duration \<Rightarrow> ('a, 'w) Client \<Rightarrow> ('a, 'w) Client" where
  "SetBackoff d c = c\<lparr>backoff := d\<rparr>"

definition SetLogger ::
  "(log_line \<Rightarrow> ('a, 'w) store \<Rightarrow> ('a, 'w) store) option \<Rightarrow> ('a, 'w) Client \<Rightarrow> ('a, 'w) Client" where
  "SetLogger l c = c\<lparr>logger := l\<rparr>"

definition SetBeforeRequestHook ::
  "(('a, 'w) store \<Rightarrow> 'a Request \<Rightarrow> error option \<times> 'a Request \<times> ('a, 'w) store) option
     \<Rightarrow> ('a, 'w) Client \<Rightarrow> ('a, 'w) Client" where
  "SetBeforeRequestHook fn c = c\<lparr>BeforeRequest := fn\<rparr>"


text \<open>\<open>SetHeader\<close> writes into the client's own map; writing into a nil map panics (\<open>None\<close>).\<close>

definition SetHeader ::
  "string \<Rightarrow> string \<Rightarrow> ('a, 'w) Client \<Rightarrow> ('a, 'w) store \<Rightarrow> (('a, 'w) Client \<times> ('a, 'w) store) option" where
  "SetHeader key val c s =
     (case headers c of
        None \<Rightarrow> None
      | Some a \<Rightarrow> Some (c, s\<lparr>st_maps := (st_maps s)(a := AList.update key val (st_maps s a))\<rparr>))"

section \<open>resolveURL\<close>

definition resolveURL :: "('a, 'u) stdlib \<Rightarrow> ('a, 'w) Client \<Rightarrow> string \<Rightarrow> error + string" where
  "resolveURL L c input =
     (case url_Parse L input of
        Inl err \<Rightarrow> Inl (InvalidRequestURL err)
      | Inr u \<Rightarrow>
          if url_IsAbs L u \<or> BaseURL c = [] then Inr input
          else (case url_Parse L (BaseURL c) of
                  Inl err \<Rightarrow> Inl (InvalidBaseURL err)
                | Inr base \<Rightarrow> Inr (url_String L (url_ResolveReference L base u))))"

section \<open>DoRequest\<close>

subsection \<open>Header merge (lines 82 to 88)\<close>

text \<open>\<open>for k, v := range m { hdr[k] = v }\<close>; ranging over a nil map does nothing.\<close>

definition range_assign :: "addr \<Rightarrow> addr option \<Rightarrow> ('a, 'w) store \<Rightarrow> ('a, 'w) store" where
  "range_assign hdr m s =
     (case m of
        None \<Rightarrow> s
      | Some a \<Rightarrow> s\<lparr>st_maps := (st_maps s)
                   (hdr := fold (\<lambda>(k, v) h. AList.update k v h) (st_maps s a) (st_maps s hdr))\<rparr>)"

text \<open>\<open>make(map[string]string)\<close> takes the next unused address.\<close>

definition make_map :: "('a, 'w) store \<Rightarrow> addr \<times> ('a, 'w) store" where
  "make_map s = (st_next s, s\<lparr>st_maps := (st_maps s)(st_next s := []), st_next := Suc (st_next s)\<rparr>)"

text \<open>\<open>NewClient\<close>, given the default transport \<open>&http.Client{}\<close>.\<close>

definition NewClient ::
  "(('a, 'w) store \<Rightarrow> http_Request \<Rightarrow> (addr option \<times> error option) \<times> ('a, 'w) store)
     \<Rightarrow> ('a, 'w) store \<Rightarrow> ('a, 'w) Client \<times> ('a, 'w) store" where
  "NewClient d s =
     (case make_map s of
        (m, s') \<Rightarrow>
          (\<lparr>client = Some d, headers = Some m, timeout = 5000000000, BaseURL = [], logger = None,
            maxRetries = 0, backoff = 0, BeforeRequest = None, AfterResponse = None\<rparr>, s'))"

definition merge_headers ::
  "('a, 'w) Client \<Rightarrow> addr option \<Rightarrow> ('a, 'w) store \<Rightarrow> addr \<times> ('a, 'w) store" where
  "merge_headers c hdrs s =
     (case make_map s of
        (hdr, s0) \<Rightarrow> (hdr, range_assign hdr hdrs (range_assign hdr (headers c) s0)))"

subsection \<open>Building the transport request (lines 116 to 132)\<close>

definition Header_Set ::
  "('a, 'u) stdlib \<Rightarrow> string \<Rightarrow> string \<Rightarrow> (string \<times> string list) list \<Rightarrow> (string \<times> string list) list" where
  "Header_Set L k v h = AList.update (CanonicalMIMEHeaderKey L k) [v] h"

definition Header_Get :: "('a, 'u) stdlib \<Rightarrow> string \<Rightarrow> (string \<times> string list) list \<Rightarrow> string" where
  "Header_Get L k h = (case map_of h (CanonicalMIMEHeaderKey L k) of Some (v # _) \<Rightarrow> v | _ \<Rightarrow> [])"

text \<open>
  \<open>http.NewRequestWithContext\<close> either rejects its arguments or returns a request with the
  given context, method, URL and body and an empty header. The body reader is
  \<open>bytes.NewReader(origBody)\<close> when the descriptor has a body, and \<open>nil\<close> otherwise.
\<close>

definition new_request ::
  "('a, 'u) stdlib \<Rightarrow> 'a Request \<Rightarrow> bytes \<Rightarrow> ('a, 'w) store \<Rightarrow> error + http_Request" where
  "new_request L muxReq origBody s =
     (let reqBody = (case req_Body muxReq of None \<Rightarrow> None | Some _ \<Rightarrow> Some origBody) in
      case NewRequest_check L (req_Context muxReq) (req_Method muxReq) (req_URL muxReq) of
        Some err \<Rightarrow> Inl (CreateRequestFailed err)
      | None \<Rightarrow>
          let hs = (case req_Headers muxReq of None \<Rightarrow> [] | Some a \<Rightarrow> st_maps s a);
              h1 = fold (\<lambda>(k, v) h. Header_Set L k v h) hs [];
              h2 = (case req_Body muxReq of
                      None \<Rightarrow> h1
                    | Some _ \<Rightarrow>
                        if Header_Get L ''Content-Type'' h1 = []
                        then Header_Set L ''Content-Type'' ''application/json'' h1 else h1)
          in Inr \<lparr>hreq_ctx = req_Context muxReq, hreq_Method = req_Method muxReq,
                  hreq_URL = req_URL muxReq, hreq_Header = h2, hreq_Body = reqBody\<rparr>)"

subsection \<open>One attempt (lines 116 to 186)\<close>

text \<open>\<open>if c.logger != nil { c.logger.Logf(...) }\<close>\<close>

definition logf :: "('a, 'w) Client \<Rightarrow> log_line \<Rightarrow> ('a, 'w) exec \<Rightarrow> ('a, 'w) exec" where
  "logf c l x =
     (case logger c of
        None \<Rightarrow> x
      | Some lg \<Rightarrow> x\<lparr>heap := lg l (heap x), trace := trace x @ [CallLogf l]\<rparr>)"

text \<open>
  \<open>time.Sleep(c.backoff * time.Duration(1<<attempt)); continue\<close>. The constant \<open>1\<close> has type
  \<open>time.Duration\<close>, so the shift is a 64-bit one: it gives \<open>0\<close> from 64 bits on, and it
  panics when the shift count is negative. The product wraps.
\<close>

definition backoff_sleep :: "('a, 'w) Client \<Rightarrow> ('a, 'w) exec \<Rightarrow> ('a, 'w) flow" where
  "backoff_sleep c x =
     (if sint (attempt x) < 0 then Exit Panic x
      else Continue (x\<lparr>trace := trace x @
             [CallSleep (backoff c * push_bit (nat (sint (attempt x))) 1)]\<rparr>))"

text \<open>Lines 175 to 186: the response is a success; decode \<open>rawBody\<close> into \<open>out\<close>.\<close>

definition decode ::
  "('a, 'u) stdlib \<Rightarrow> out_target option \<Rightarrow> addr \<Rightarrow> addr \<Rightarrow> ('a, 'w) exec \<Rightarrow> ('a, 'w) flow" where
  "decode L out r rawBody x =
     (case out of
        None \<Rightarrow> Exit (Return (Some r) None) x
      | Some (StringPtr None) \<Rightarrow> Exit Panic x
      | Some (StringPtr (Some q)) \<Rightarrow>
          Exit (Return (Some r) None)
            (x\<lparr>heap := (heap x)\<lparr>st_strings := (st_strings (heap x))(q := st_bytes (heap x) rawBody)\<rparr>\<rparr>)
      | Some (OtherPtr q) \<Rightarrow>
          (case json_Unmarshal L (st_bytes (heap x) rawBody) (st_values (heap x) q) of
             (uerr, v) \<Rightarrow>
               let x' = x\<lparr>heap := (heap x)\<lparr>st_values := (st_values (heap x))(q := v)\<rparr>,
                          trace := trace x @ [CallUnmarshal]\<rparr>
               in (case uerr of
                     Some err \<Rightarrow> Exit (Return (Some r) (Some (DecodeResponseFailed err))) x'
                   | None \<Rightarrow> Exit (Return (Some r) None) x')))"

definition set_http_Body :: "addr \<Rightarrow> reader \<Rightarrow> ('a, 'w) store \<Rightarrow> ('a, 'w) store" where
  "set_http_Body r rd s = s\<lparr>st_resp := (st_resp s)(r := (st_resp s r)\<lparr>http_Body := Some rd\<rparr>)\<rparr>"

text \<open>
  Lines 166 to 186, after the post-receive hook: \<open>defer resp.Body.Close()\<close> (which panics
  on a nil \<open>Body\<close>), the status check, and either the retry path, which reads \<open>resp.Body\<close>
  once more for the error message, or the decoding.
\<close>

definition after_hook ::
  "('a, 'u) stdlib \<Rightarrow> ('a, 'w) Client \<Rightarrow> out_target option \<Rightarrow> addr \<Rightarrow> addr \<Rightarrow> ('a, 'w) exec
     \<Rightarrow> ('a, 'w) flow" where
  "after_hook L c out r rawBody x =
     (case http_Body (st_resp (heap x) r) of
        None \<Rightarrow> Exit Panic x
      | Some rd \<Rightarrow>
          let x1 = x\<lparr>deferred := DeferClose r # deferred x\<rparr>;
              code = http_StatusCode (st_resp (heap x) r)
          in if sint code < 200 \<or> 300 \<le> sint code then
               (case io_ReadAll rd of
                  ((bodyBytes, _), rd') \<Rightarrow>
                    backoff_sleep c
                      (x1\<lparr>heap := set_http_Body r rd' (heap x1),
                          lastErr := Some (HTTPStatus code bodyBytes)\<rparr>))
             else decode L out r rawBody x1)"

text \<open>\<open>io.ReadAll\<close> returns a fresh slice: \<open>rawBody\<close> is the address of its backing array.\<close>

definition new_bytes :: "bytes \<Rightarrow> ('a, 'w) store \<Rightarrow> addr \<times> ('a, 'w) store" where
  "new_bytes bs s = (st_next s, s\<lparr>st_bytes := (st_bytes s)(st_next s := bs), st_next := Suc (st_next s)\<rparr>)"

text \<open>
  Lines 148 to 151: read the whole body of the response \<open>r\<close> into \<open>rawBody\<close>. Reading a nil
  \<open>Body\<close> panics; a read error ends the call.
\<close>

definition read_body ::
  "addr \<Rightarrow> ('a, 'w) exec \<Rightarrow> (result \<times> ('a, 'w) exec) + (addr \<times> ('a, 'w) exec)" where
  "read_body r x =
     (case http_Body (st_resp (heap x) r) of
        None \<Rightarrow> Inl (Panic, x)
      | Some rd \<Rightarrow>
          (case io_ReadAll rd of
             ((bs, rerr), rd') \<Rightarrow>
               let x1 = x\<lparr>heap := set_http_Body r rd' (heap x)\<rparr> in
               (case rerr of
                  Some err \<Rightarrow> Inl (Return (Some r) (Some (ReadResponseBodyFailed err)), x1)
                | None \<Rightarrow>
                    (case new_bytes bs (heap x1) of
                       (rawBody, h2) \<Rightarrow> Inr (rawBody, x1\<lparr>heap := h2\<rparr>)))))"

text \<open>Lines 153 to 158: the response descriptor \<open>muxResp\<close> (\<open>Header.Clone()\<close> copies the header).\<close>

definition response_descriptor :: "('a, 'w) store \<Rightarrow> addr \<Rightarrow> addr \<Rightarrow> Response" where
  "response_descriptor s r rawBody =
     \<lparr>resp_StatusCode = http_StatusCode (st_resp s r), resp_Headers = http_Header (st_resp s r),
      resp_Body = Some rawBody, resp_Raw = r\<rparr>"

text \<open>
  Lines 153 to 164: the post-receive hook, if one is set. The result is the hook's error,
  the descriptor as the hook leaves it, and the new state.
\<close>

definition call_AfterResponse ::
  "('a, 'w) Client \<Rightarrow> addr \<Rightarrow> addr \<Rightarrow> ('a, 'w) exec \<Rightarrow> error option \<times> Response \<times> ('a, 'w) exec" where
  "call_AfterResponse c r rawBody x =
     (case AfterResponse c of
        None \<Rightarrow> (None, response_descriptor (heap x) r rawBody, x)
      | Some hook \<Rightarrow>
          (case hook (heap x) (response_descriptor (heap x) r rawBody) of
             (herr, mr, h3) \<Rightarrow>
               (herr, mr, x\<lparr>heap := h3, trace := trace x @ [CallAfterResponse r]\<rparr>)))"

text \<open>
  Lines 148 to 186, after a transport call without error. Dereferencing a nil \<open>resp\<close>
  panics. Nothing reads the descriptor once the hook has returned.
\<close>

definition on_response ::
  "('a, 'u) stdlib \<Rightarrow> ('a, 'w) Client \<Rightarrow> out_target option \<Rightarrow> ('a, 'w) exec \<Rightarrow> ('a, 'w) flow" where
  "on_response L c out x =
     (case resp x of
        None \<Rightarrow> Exit Panic x
      | Some r \<Rightarrow>
          (case read_body r x of
             Inl (res, x1) \<Rightarrow> Exit res x1
           | Inr (rawBody, x2) \<Rightarrow>
               (case call_AfterResponse c r rawBody x2 of
                  (Some err, _, x3) \<Rightarrow>
                    Exit (Return (Some r) (Some (AfterResponseHookFailed err))) x3
                | (None, _, x3) \<Rightarrow> after_hook L c out r rawBody x3)))"

text \<open>
  Lines 116 to 146: build the request, log, call the transport. Either the attempt ends
  here (the request cannot be built, the transport is nil and \<open>Do\<close> panics, or the transport
  returns an error, which is recorded before the backoff sleep), or the transport has
  returned without an error.
\<close>

definition send ::
  "('a, 'u) stdlib \<Rightarrow> ('a, 'w) Client \<Rightarrow> 'a Request \<Rightarrow> bytes \<Rightarrow> ('a, 'w) exec
     \<Rightarrow> ('a, 'w) flow + ('a, 'w) exec" where
  "send L c muxReq origBody x =
     (case new_request L muxReq origBody (heap x) of
        Inl err \<Rightarrow> Inl (Exit (Return None (Some err)) x)
      | Inr req \<Rightarrow>
          let x1 = logf c (LogRequest (req_Method muxReq) (req_URL muxReq) (attempt x + 1)) x in
          (case client c of
             None \<Rightarrow> Inl (Exit Panic x1)
           | Some d \<Rightarrow>
               (case d (heap x1) req of
                  ((p, e), h) \<Rightarrow>
                    let x2 = x1\<lparr>heap := h, resp := p, trace := trace x1 @ [CallDo req p e]\<rparr> in
                    (case e of
                       Some err \<Rightarrow>
                         Inl (backoff_sleep c
                                (logf c (LogRequestFailed err) (x2\<lparr>lastErr := Some err\<rparr>)))
                     | None \<Rightarrow> Inr x2))))"

text \<open>The body of the \<open>for\<close> loop.\<close>

definition attempt_body ::
  "('a, 'u) stdlib \<Rightarrow> ('a, 'w) Client \<Rightarrow> 'a Request \<Rightarrow> bytes \<Rightarrow> out_target option \<Rightarrow> ('a, 'w) exec
     \<Rightarrow> ('a, 'w) flow" where
  "attempt_body L c muxReq origBody out x =
     (case send L c muxReq origBody x of
        Inl f \<Rightarrow> f
      | Inr x2 \<Rightarrow> on_response L c out x2)"

subsection \<open>The retry loop (lines 115 to 189)\<close>

text \<open>
  \<open>for attempt := 0; attempt <= c.maxRetries; attempt++\<close>, followed by the final
  \<open>return\<close> of line 189. The counter wraps at the largest \<open>int\<close>; the loop still ends,
  because every \<open>continue\<close> goes through a shift by \<open>attempt\<close>, which panics once the
  counter is negative.
\<close>

function retry_loop ::
  "('a, 'u) stdlib \<Rightarrow> ('a, 'w) Client \<Rightarrow> 'a Request \<Rightarrow> bytes \<Rightarrow> out_target option \<Rightarrow> ('a, 'w) exec
     \<Rightarrow> result \<times> ('a, 'w) exec" where
  "retry_loop L c muxReq origBody out x =
     (if sint (attempt x) \<le> sint (maxRetries c) then
        (case attempt_body L c muxReq origBody out x of
           Exit r x' \<Rightarrow> (r, x')
         | Continue x' \<Rightarrow> retry_loop L c muxReq origBody out (x'\<lparr>attempt := attempt x' + 1\<rparr>))
      else (Return (resp x) (Some (RequestFailedAfter (maxRetries c + 1) (lastErr x))), x))"
  by pat_completeness auto
termination
proof (relation "measure (\<lambda>(L, c, muxReq, origBody, out, x).
          if sint (attempt x) < 0 then 0 else nat (2 ^ 63 - sint (attempt x)))")
  show "wf (measure (\<lambda>(L :: ('a, 'u) stdlib, c :: ('a, 'w) Client, muxReq :: 'a Request,
              origBody :: bytes, out :: out_target option, x :: ('a, 'w) exec).
          if sint (attempt x) < 0 then 0 else nat (2 ^ 63 - sint (attempt x))))"
    by simp
next
  fix L :: "('a, 'u) stdlib" and c :: "('a, 'w) Client" and muxReq :: "'a Request"
    and origBody :: bytes and out :: "out_target option" and x x' :: "('a, 'w) exec"
  assume st: "attempt_body L c muxReq origBody out x = Continue x'"
  have sleep: "attempt y' = attempt y \<and> 0 \<le> sint (attempt y)"
    if "backoff_sleep c y = Continue y'" for y y' :: "('a, 'w) exec"
    using that by (auto simp: backoff_sleep_def split: if_splits)
  have dec: "decode L out r rb y \<noteq> Continue y'" for r rb and y y' :: "('a, 'w) exec"
    by (simp add: decode_def Let_def split: option.splits out_target.splits prod.splits)
  have hook: "attempt y' = attempt y \<and> 0 \<le> sint (attempt y)"
    if "after_hook L c out r rb y = Continue y'" for r rb and y y' :: "('a, 'w) exec"
    using that
    by (auto simp: after_hook_def Let_def dec split: option.splits if_splits prod.splits
        dest!: sleep)
  have onresp: "attempt y' = attempt y \<and> 0 \<le> sint (attempt y)"
    if "on_response L c out y = Continue y'" for y y' :: "('a, 'w) exec"
    using that
    by (auto simp: on_response_def read_body_def call_AfterResponse_def Let_def
        split: option.splits if_splits prod.splits sum.splits dest!: hook)
  have lg: "attempt (logf c l y) = attempt y" for l and y :: "('a, 'w) exec"
    by (simp add: logf_def split: option.splits)
  have "attempt x' = attempt x \<and> 0 \<le> sint (attempt x)"
    using st
    by (auto simp: attempt_body_def send_def Let_def lg split: sum.splits option.splits prod.splits
        dest!: onresp sleep)
  then have eq: "attempt x' = attempt x" and nn: "0 \<le> sint (attempt x)"
    by simp_all
  have lt: "sint (attempt x) < 2 ^ 63"
    using sint_lt[of "attempt x"] by simp
  show "((L, c, muxReq, origBody, out, x'\<lparr>attempt := attempt x' + 1\<rparr>),
         (L, c, muxReq, origBody, out, x))
        \<in> measure (\<lambda>(L, c, muxReq, origBody, out, x).
             if sint (attempt x) < 0 then 0 else nat (2 ^ 63 - sint (attempt x)))"
  proof (cases "sint (attempt x) < 2 ^ 63 - 1")
    case True
    then have "sint (attempt x + 1) = sint (attempt x) + 1"
      using nn by (simp add: sint_word_ariths signed_take_bit_int_eq_self)
    then show ?thesis using nn eq True by simp
  next
    case False
    with lt have "sint (attempt x) = 2 ^ 63 - 1" by simp
    then have "word_of_int (sint (attempt x)) = (word_of_int (2 ^ 63 - 1) :: 64 word)"
      by simp
    then have "attempt x = word_of_int (2 ^ 63 - 1)" by simp
    then have "sint (attempt x + 1) < 0" by simp
    then show ?thesis using nn eq lt by simp
  qed
qed

declare retry_loop.simps [simp del]

subsection \<open>Before the loop (lines 70 to 110)\<close>

text \<open>Lines 98 to 102: the pre-send hook, if one is set.\<close>

definition run_BeforeRequest ::
  "('a, 'w) Client \<Rightarrow> 'a Request \<Rightarrow> ('a, 'w) exec \<Rightarrow> error option \<times> 'a Request \<times> ('a, 'w) exec" where
  "run_BeforeRequest c muxReq x =
     (case BeforeRequest c of
        None \<Rightarrow> (None, muxReq, x)
      | Some hook \<Rightarrow>
          (case hook (heap x) muxReq of
             (e, mr, s) \<Rightarrow> (e, mr, x\<lparr>heap := s, trace := trace x @ [CallBeforeRequest]\<rparr>)))"

text \<open>Lines 104 to 110: \<open>origBody\<close> stays nil (empty) when the descriptor has no body.\<close>

definition marshal_body ::
  "('a, 'u) stdlib \<Rightarrow> 'a Request \<Rightarrow> ('a, 'w) exec \<Rightarrow> (result \<times> ('a, 'w) exec) + (bytes \<times> ('a, 'w) exec)" where
  "marshal_body L muxReq x =
     (case req_Body muxReq of
        None \<Rightarrow> Inr ([], x)
      | Some b \<Rightarrow>
          let x' = x\<lparr>trace := trace x @ [CallMarshal]\<rparr> in
          (case json_Marshal L b of
             Inl err \<Rightarrow> Inl (Return None (Some (MarshalBodyFailed err)), x')
           | Inr bs \<Rightarrow> Inr (bs, x')))"

text \<open>
  Lines 70 to 74 and the variables of lines 112 to 115: without a context, one with the
  client's timeout is made and its \<open>cancel\<close> is deferred.
\<close>

definition entry :: "go_context option \<Rightarrow> ('a, 'w) store \<Rightarrow> ('a, 'w) exec" where
  "entry ctx s =
     \<lparr>heap = s, trace = [], resp = None, lastErr = None, attempt = 0,
      deferred = (case ctx of None \<Rightarrow> [DeferCancel] | Some _ \<Rightarrow> [])\<rparr>"

text \<open>Lines 90 to 96: the request descriptor \<open>muxReq\<close>.\<close>

definition descriptor ::
  "('a, 'w) Client \<Rightarrow> go_context option \<Rightarrow> string \<Rightarrow> string \<Rightarrow> addr \<Rightarrow> 'a option \<Rightarrow> 'a Request" where
  "descriptor c ctx method fullURL hdr body =
     \<lparr>req_Method = method, req_URL = fullURL, req_Headers = Some hdr, req_Body = body,
      req_Context = Some (case ctx of None \<Rightarrow> WithTimeout (timeout c) | Some k \<Rightarrow> k)\<rparr>"

text \<open>
  Lines 70 to 102: the URL, the merged headers, the descriptor and the pre-send hook. The
  result is an early \<open>return\<close> or the descriptor as the hook leaves it.
\<close>

definition pre_send ::
  "('a, 'u) stdlib \<Rightarrow> ('a, 'w) Client \<Rightarrow> go_context option \<Rightarrow> string \<Rightarrow> string \<Rightarrow> 'a option
     \<Rightarrow> addr option \<Rightarrow> ('a, 'w) store
     \<Rightarrow> (result \<times> ('a, 'w) exec) + ('a Request \<times> ('a, 'w) exec)" where
  "pre_send L c ctx method rawURL body hdrs s =
     (case resolveURL L c rawURL of
        Inl err \<Rightarrow> Inl (Return None (Some err), entry ctx s)
      | Inr fullURL \<Rightarrow>
          (case merge_headers c hdrs s of
             (hdr, s1) \<Rightarrow>
               (case run_BeforeRequest c (descriptor c ctx method fullURL hdr body)
                       ((entry ctx s)\<lparr>heap := s1\<rparr>) of
                  (Some err, _, x2) \<Rightarrow>
                    Inl (Return None (Some (BeforeRequestHookFailed err)), x2)
                | (None, mr, x2) \<Rightarrow> Inr (mr, x2))))"

text \<open>
  Everything up to the loop (lines 70 to 110). The result is an early \<open>return\<close> or what
  the loop starts from: the descriptor, the serialized body and the state.
\<close>

definition prepare ::
  "('a, 'u) stdlib \<Rightarrow> ('a, 'w) Client \<Rightarrow> go_context option \<Rightarrow> string \<Rightarrow> string \<Rightarrow> 'a option
     \<Rightarrow> addr option \<Rightarrow> ('a, 'w) store
     \<Rightarrow> (result \<times> ('a, 'w) exec) + ('a Request \<times> bytes \<times> ('a, 'w) exec)" where
  "prepare L c ctx method rawURL body hdrs s =
     (case pre_send L c ctx method rawURL body hdrs s of
        Inl early \<Rightarrow> Inl early
      | Inr (mr, x2) \<Rightarrow>
          (case marshal_body L mr x2 of
             Inl early \<Rightarrow> Inl early
           | Inr (origBody, x3) \<Rightarrow> Inr (mr, origBody, x3)))"

text \<open>The deferred calls run when the function leaves, the last deferred first.\<close>

definition run_deferred :: "('a, 'w) exec \<Rightarrow> ('a, 'w) exec" where
  "run_deferred x =
     x\<lparr>trace := trace x @
          map (\<lambda>d. case d of DeferCancel \<Rightarrow> CallCancel | DeferClose r \<Rightarrow> CallClose r) (deferred x),
       deferred := []\<rparr>"

definition DoRequest ::
  "('a, 'u) stdlib \<Rightarrow> ('a, 'w) Client \<Rightarrow> go_context option \<Rightarrow> string \<Rightarrow> string \<Rightarrow> 'a option
     \<Rightarrow> out_target option \<Rightarrow> addr option \<Rightarrow> ('a, 'w) store \<Rightarrow> result \<times> ('a, 'w) exec" where
  "DoRequest L c ctx method rawURL body out hdrs s =
     (case (case prepare L c ctx method rawURL body hdrs s of
              Inl early \<Rightarrow> early
            | Inr (muxReq, origBody, x) \<Rightarrow> retry_loop L c muxReq origBody out x) of
        (r, x) \<Rightarrow> (r, run_deferred x))"

section \<open>Method helpers (methods.go)\<close>

definition Get ::
  "('a, 'u) stdlib \<Rightarrow> ('a, 'w) Client \<Rightarrow> go_context option \<Rightarrow> string \<Rightarrow> out_target option
     \<Rightarrow> addr option \<Rightarrow> ('a, 'w) store \<Rightarrow> result \<times> ('a, 'w) exec" where
  "Get L c ctx url out hdrs s = DoRequest L c ctx ''GET'' url None out hdrs s"

definition Post ::
  "('a, 'u) stdlib \<Rightarrow> ('a, 'w) Client \<Rightarrow> go_context option \<Rightarrow> string \<Rightarrow> 'a option
     \<Rightarrow> out_target option \<Rightarrow> addr option \<Rightarrow> ('a, 'w) store \<Rightarrow> result \<times> ('a, 'w) exec" where
  "Post L c ctx url body out hdrs s = DoRequest L c ctx ''POST'' url body out hdrs s"

definition Put ::
  "('a, 'u) stdlib \<Rightarrow> ('a, 'w) Client \<Rightarrow> go_context option \<Rightarrow> string \<Rightarrow> 'a option
     \<Rightarrow> out_target option \<Rightarrow> addr option \<Rightarrow> ('a, 'w) store \<Rightarrow> result \<times> ('a, 'w) exec" where
  "Put L c ctx url body out hdrs s = DoRequest L c ctx ''PUT'' url body out hdrs s"

definition Delete ::
  "('a, 'u) stdlib \<Rightarrow> ('a, 'w) Client \<Rightarrow> go_context option \<Rightarrow> string \<Rightarrow> out_target option
     \<Rightarrow> addr option \<Rightarrow> ('a, 'w) store \<Rightarrow> result \<times> ('a, 'w) exec" where
  "Delete L c ctx url out hdrs s = DoRequest L c ctx ''DELETE'' url None out hdrs s"

section \<open>Reading traces and stores\<close>

subsection \<open>Reading a trace\<close>

fun is_Do :: "event \<Rightarrow> bool" where
  "is_Do (CallDo _ _ _) = True"
| "is_Do _ = False"

definition transport_calls :: "event list \<Rightarrow> event list" where
  "transport_calls tr = filter is_Do tr"

text \<open>The transport calls and the sleeps of a trace, in order.\<close>

datatype io_step = Attempt | Sleep duration

fun io_steps :: "event list \<Rightarrow> io_step list" where
  "io_steps [] = []"
| "io_steps (CallDo _ _ _ # tr) = Attempt # io_steps tr"
| "io_steps (CallSleep d # tr) = Sleep d # io_steps tr"
| "io_steps (_ # tr) = io_steps tr"

subsection \<open>Reading the store\<close>

text \<open>Looking a key up in a map (a nil map has no keys), and what makes a map object well formed.\<close>

definition map_lookup :: "('a, 'w) store \<Rightarrow> addr option \<Rightarrow> string \<Rightarrow> string option" where
  "map_lookup s m k = (case m of None \<Rightarrow> None | Some a \<Rightarrow> map_of (st_maps s a) k)"

definition valid_map :: "('a, 'w) store \<Rightarrow> addr option \<Rightarrow> bool" where
  "valid_map s m = (case m of None \<Rightarrow> True | Some a \<Rightarrow> a < st_next s \<and> distinct (map fst (st_maps s a)))"

fun flow_state :: "('a, 'w) flow \<Rightarrow> ('a, 'w) exec" where
  "flow_state (Continue x) = x"
| "flow_state (Exit r x) = x"

definition sent_body :: "'a Request \<Rightarrow> bytes \<Rightarrow> bytes option" where
  "sent_body muxReq origBody = (case req_Body muxReq of None \<Rightarrow> None | Some _ \<Rightarrow> Some origBody)"

fun attempt_event :: "bytes option \<Rightarrow> event \<Rightarrow> bool" where
  "attempt_event b (CallDo req _ _) = (hreq_Body req = b)"
| "attempt_event b (CallLogf _) = True"
| "attempt_event b (CallSleep _) = True"
| "attempt_event b (CallAfterResponse _) = True"
| "attempt_event b CallUnmarshal = True"
| "attempt_event b _ = False"

definition extends ::
  "bytes option \<Rightarrow> nat \<Rightarrow> ('a, 'w) exec \<Rightarrow> ('a, 'w) exec \<Rightarrow> bool" where
  "extends b n x x' \<longleftrightarrow>
     (\<exists>evs. trace x' = trace x @ evs \<and> list_all (attempt_event b) evs \<and>
            length (filter is_Do evs) \<le> n)"

definition last_call_failed :: "('a, 'w) exec \<Rightarrow> bool" where
  "last_call_failed x \<longleftrightarrow>
     (\<exists>req e. lastErr x = Some e \<and> transport_calls (trace x) \<noteq> [] \<and>
        last (transport_calls (trace x)) = CallDo req (resp x) (Some e))"

text \<open>The events of the pre-send stage.\<close>

definition pre_send_events :: "('a, 'w) Client \<Rightarrow> event list" where
  "pre_send_events c = (case BeforeRequest c of None \<Rightarrow> [] | Some _ \<Rightarrow> [CallBeforeRequest])"

fun is_AfterResponse :: "event \<Rightarrow> bool" where
  "is_AfterResponse (CallAfterResponse _) = True"
| "is_AfterResponse _ = False"


text \<open>No collaborator of the client writes to the map object at \<open>a\<close>.\<close>

definition untouched :: "addr \<Rightarrow> ('a, 'w) Client \<Rightarrow> bool" where
  "untouched a c \<longleftrightarrow>
     (\<forall>tr. client c = Some tr \<longrightarrow> (\<forall>h req. st_maps (snd (tr h req)) a = st_maps h a)) \<and>
     (\<forall>lg. logger c = Some lg \<longrightarrow> (\<forall>l h. st_maps (lg l h) a = st_maps h a)) \<and>
     (\<forall>hk. BeforeRequest c = Some hk \<longrightarrow> (\<forall>h m. st_maps (snd (snd (hk h m))) a = st_maps h a)) \<and>
     (\<forall>hk. AfterResponse c = Some hk \<longrightarrow> (\<forall>h m. st_maps (snd (snd (hk h m))) a = st_maps h a))"

text \<open>The bodies of the requests given to the transport, in order.\<close>

fun sent_bodies :: "event list \<Rightarrow> bytes option list" where
  "sent_bodies [] = []"
| "sent_bodies (CallDo req _ _ # tr) = hreq_Body req # sent_bodies tr"
| "sent_bodies (_ # tr) = sent_bodies tr"

text \<open>
  The state in which the loop stands after \<open>k\<close> iterations that have all ended with
  \<open>continue\<close> (none when one of them has left the loop, or the loop has ended before).
\<close>

primrec after_retries ::
  "nat \<Rightarrow> ('a, 'u) stdlib \<Rightarrow> ('a, 'w) Client \<Rightarrow> 'a Request \<Rightarrow> bytes \<Rightarrow> out_target option
     \<Rightarrow> ('a, 'w) exec \<Rightarrow> ('a, 'w) exec option" where
  "after_retries 0 L c muxReq origBody out x = Some x"
| "after_retries (Suc k) L c muxReq origBody out x =
     (if sint (attempt x) \<le> sint (maxRetries c) then
        (case attempt_body L c muxReq origBody out x of
           Exit _ _ \<Rightarrow> None
         | Continue x' \<Rightarrow> after_retries k L c muxReq origBody out (x'\<lparr>attempt := attempt x' + 1\<rparr>))
      else None)"

section \<open>Test doubles\<close>

text \<open>
  A small library, an empty store, a client with the settings of \<open>NewClient\<close> (but no
  default headers) and some transports and hooks, on which the definitions are run.
\<close>

definition test_lib :: "(string, string) stdlib" where
  "test_lib =
     \<lparr>url_Parse = (\<lambda>s. if CHR '' '' \<in> set s then Inl (Err ''invalid character in URL'') else Inr s),
      url_IsAbs = (\<lambda>u. take 7 u = ''http://'' \<or> take 8 u = ''https://''),
      url_ResolveReference = (\<lambda>base u. base @ u),
      url_String = (\<lambda>u. u),
      json_Marshal = (\<lambda>v. if v = ''chan'' then Inl (Err ''unsupported type'') else Inr v),
      json_Unmarshal = (\<lambda>bs v. if bs = [] then (Some (Err ''unexpected end of JSON input''), v)
                                else (None, bs)),
      NewRequest_check = (\<lambda>ctx m u. None),
      CanonicalMIMEHeaderKey = (\<lambda>k. k)\<rparr>"

definition empty_store :: "(string, unit) store" where
  "empty_store =
     \<lparr>st_maps = (\<lambda>_. []), st_bytes = (\<lambda>_. []),
      st_resp = (\<lambda>_. \<lparr>http_StatusCode = 0, http_Header = [], http_Body = None\<rparr>),
      st_strings = (\<lambda>_. []), st_values = (\<lambda>_. []), st_next = 0, world = ()\<rparr>"

definition test_client ::
  "((string, unit) store \<Rightarrow> http_Request \<Rightarrow> (addr option \<times> error option) \<times> (string, unit) store)
     \<Rightarrow> (string, unit) Client" where
  "test_client d =
     \<lparr>client = Some d, headers = None, timeout = 5000000000, BaseURL = [], logger = None,
      maxRetries = 0, backoff = 0, BeforeRequest = None, AfterResponse = None\<rparr>"

definition refuse :: "(string, unit) store \<Rightarrow> http_Request \<Rightarrow> (addr option \<times> error option) \<times> (string, unit) store" where
  "refuse s req = ((None, Some (Err ''connection refused'')), s)"

definition header_store :: "(string, unit) store" where
  "header_store =
     empty_store\<lparr>st_maps := (\<lambda>_. [])(0 := [(''Accept'', ''text/plain''), (''X-Key'', ''k1'')],
                                     1 := [(''Accept'', ''application/json'')]),
                 st_next := 2\<rparr>"

definition max_int :: go_int where "max_int = 0x7FFFFFFFFFFFFFFF"

definition max_client :: "(string, unit) Client" where
  "max_client = SetMaxRetries max_int (test_client refuse)"

definition retry_client :: "(string, unit) Client" where
  "retry_client = SetBackoff 10 (SetMaxRetries 2 (test_client refuse))"


text \<open>A transport that answers every request with a new response object.\<close>

definition reply ::
  "go_int \<Rightarrow> reader \<Rightarrow> (string, unit) store \<Rightarrow> http_Request
     \<Rightarrow> (addr option \<times> error option) \<times> (string, unit) store" where
  "reply code rd s req =
     ((Some (st_next s), None),
      s\<lparr>st_resp := (st_resp s)(st_next s :=
           \<lparr>http_StatusCode = code, http_Header = [], http_Body = Some rd\<rparr>),
        st_next := Suc (st_next s)\<rparr>)"

text \<open>A pre-send hook that refuses every request.\<close>

definition deny :: "(string, unit) store \<Rightarrow> string Request \<Rightarrow> error option \<times> string Request \<times> (string, unit) store" where
  "deny s r = (Some (Err ''denied''), r, s)"

definition denied_client :: "(string, unit) Client" where
  "denied_client = (test_client (reply 200 (Reader ''ok'' None)))\<lparr>maxRetries := 3, BeforeRequest := Some deny\<rparr>"

text \<open>A client whose transport answers 200 with the body \<open>ok\<close>.\<close>

definition ok_client :: "(string, unit) Client" where
  "ok_client = test_client (reply 200 (Reader ''ok'' None))"

text \<open>Post-receive hooks, and clients that use them.\<close>

definition reject :: "(string, unit) store \<Rightarrow> Response \<Rightarrow> error option \<times> Response \<times> (string, unit) store" where
  "reject s m = (Some (Err ''rate limited''), m, s)"

definition observe :: "(string, unit) store \<Rightarrow> Response \<Rightarrow> error option \<times> Response \<times> (string, unit) store" where
  "observe s m = (None, m, s)"

definition rejecting_client :: "(string, unit) Client" where
  "rejecting_client =
     (test_client (reply 500 (Reader ''busy'' None)))\<lparr>maxRetries := 2, AfterResponse := Some reject\<rparr>"

definition broken_body_client :: "(string, unit) Client" where
  "broken_body_client =
     (test_client (reply 200 (Reader ''par'' (Some (Err ''connection reset'')))))
       \<lparr>AfterResponse := Some observe\<rparr>"

text \<open>What the loop starts from for \<open>GET http://h/\<close> without body and headers on the empty store.\<close>

definition get_request :: "string Request" where
  "get_request =
     \<lparr>req_Method = ''GET'', req_URL = ''http://h/'', req_Headers = Some 0, req_Body = None,
      req_Context = Some (WithTimeout 5000000000)\<rparr>"

definition get_state :: "(string, unit) exec" where
  "get_state = (entry None empty_store)\<lparr>heap := snd (make_map empty_store)\<rparr>"

text \<open>A client whose transport answers 200 with an empty body.\<close>

definition empty_body_client :: "(string, unit) Client" where
  "empty_body_client = (test_client (reply 200 (Reader [] None)))\<lparr>maxRetries := 2\<rparr>"

text \<open>A post-receive hook that assigns a new slice with other bytes to \<open>Body\<close>.\<close>

definition swap_body :: "(string, unit) store \<Rightarrow> Response \<Rightarrow> error option \<times> Response \<times> (string, unit) store" where
  "swap_body s m =
     (None, m\<lparr>resp_Body := Some (st_next s)\<rparr>,
      s\<lparr>st_bytes := (st_bytes s)(st_next s := ''other''), st_next := Suc (st_next s)\<rparr>)"

definition swapping_client :: "(string, unit) Client" where
  "swapping_client = (test_client (reply 200 (Reader ''ok'' None)))\<lparr>AfterResponse := Some swap_body\<rparr>"

text \<open>A client whose default headers are the map at address 0.\<close>

definition header_client :: "(string, unit) Client" where
  "header_client = (test_client refuse)\<lparr>headers := Some 0\<rparr>"

text \<open>A library whose \<open>http.NewRequestWithContext\<close> rejects a method with a space in it.\<close>

definition strict_lib :: "(string, string) stdlib" where
  "strict_lib =
     test_lib\<lparr>NewRequest_check :=
       (\<lambda>ctx m u. if CHR '' '' \<in> set m then Some (Err ''invalid method'') else None)\<rparr>"

text \<open>A client with two retries and the backoff \<open>- 2^62\<close> nanoseconds.\<close>

definition negative_backoff_client :: "(string, unit) Client" where
  "negative_backoff_client = SetBackoff (- 0x4000000000000000) (SetMaxRetries 2 (test_client refuse))"

text \<open>A pre-send hook that removes the body from the descriptor.\<close>

definition clear_body ::
  "(string, unit) store \<Rightarrow> string Request \<Rightarrow> error option \<times> string Request \<times> (string, unit) store" where
  "clear_body s r = (None, r\<lparr>req_Body := None\<rparr>, s)"

definition clearing_client :: "(string, unit) Client" where
  "clearing_client = (test_client refuse)\<lparr>BeforeRequest := Some clear_body\<rparr>"

text \<open>
  A library whose \<open>json.Unmarshal\<close> accepts the JSON numbers written with digits only
  (the target then holds the number) and rejects every other input.
\<close>

definition number_lib :: "(string, string) stdlib" where
  "number_lib =
     test_lib\<lparr>json_Unmarshal :=
       (\<lambda>bs v. if bs = [] then (Some (Err ''unexpected end of JSON input''), v)
               else if list_all (\<lambda>ch. ch \<in> set ''0123456789'') bs then (None, bs)
               else (Some (Err ''invalid character''), v))\<rparr>"

text \<open>A client whose transport answers 200 with the body \<open>42\<close>.\<close>

definition number_client :: "(string, unit) Client" where
  "number_client = test_client (reply 200 (Reader ''42'' None))"

text \<open>A post-receive hook that overwrites the first byte of \<open>Body\<close> in place.\<close>

definition scribble :: "(string, unit) store \<Rightarrow> Response \<Rightarrow> error option \<times> Response \<times> (string, unit) store" where
  "scribble s m =
     (None, m,
      case resp_Body m of
        None \<Rightarrow> s
      | Some a \<Rightarrow> s\<lparr>st_bytes := (st_bytes s)(a := (st_bytes s a)[0 := CHR ''X''])\<rparr>)"

definition scribbling_client :: "(string, unit) Client" where
  "scribbling_client = (test_client (reply 200 (Reader ''ok'' None)))\<lparr>AfterResponse := Some scribble\<rparr>"

text \<open>A transport that answers 500 to the first request and 200 to the following ones.\<close>

definition flaky ::
  "(string, unit) store \<Rightarrow> http_Request \<Rightarrow> (addr option \<times> error option) \<times> (string, unit) store" where
  "flaky s req =
     (if st_next s < 2 then reply 500 (Reader ''busy'' None) s req
      else reply 200 (Reader ''ok'' None) s req)"

definition flaky_client :: "(string, unit) Client" where
  "flaky_client = (test_client flaky)\<lparr>maxRetries := 1\<rparr>"

text \<open>A post-receive hook that sets the field \<open>Body\<close> of the raw response to \<open>nil\<close>.\<close>

definition unset_Body :: "(string, unit) store \<Rightarrow> Response \<Rightarrow> error option \<times> Response \<times> (string, unit) store" where
  "unset_Body s m =
     (None, m, s\<lparr>st_resp := (st_resp s)(resp_Raw m := (st_resp s (resp_Raw m))\<lparr>http_Body := None\<rparr>)\<rparr>)"

definition unsetting_client :: "(string, unit) Client" where
  "unsetting_client = (test_client (reply 200 (Reader ''ok'' None)))\<lparr>AfterResponse := Some unset_Body\<rparr>"

text \<open>A client whose transport answers 200 and whose post-receive hook fails.\<close>

definition vetoing_client :: "(string, unit) Client" where
  "vetoing_client = (test_client (reply 200 (Reader ''ok'' None)))\<lparr>AfterResponse := Some reject\<rparr>"

text \<open>A client without a transport (the zero value \<open>Client{}\<close> has a nil \<open>client\<close>).\<close>

definition bare_client :: "(string, unit) Client" where
  "bare_client = (test_client refuse)\<lparr>client := None\<rparr>"

section \<open>Properties\<close>

subsection \<open>Header merge\<close>

lemma map_of_fold_update:
  "distinct (map fst kvs) \<Longrightarrow>
   map_of (fold (\<lambda>(k, v) h. AList.update k v h) kvs h) = map_of h ++ map_of kvs"
proof (induction kvs arbitrary: h)
  case Nil
  then show ?case by simp
next
  case (Cons kv kvs)
  obtain k v where kv: "kv = (k, v)" by (cases kv)
  from Cons.prems kv have nk: "k \<notin> fst ` set kvs" and d: "distinct (map fst kvs)" by auto
  from nk have none: "map_of kvs k = None" by (simp add: map_of_eq_None_iff)
  have "map_of (fold (\<lambda>(k, v) h. AList.update k v h) (kv # kvs) h)
        = map_of (AList.update k v h) ++ map_of kvs"
    using Cons.IH[OF d] kv by simp
  also have "\<dots> = (map_of h)(k \<mapsto> v) ++ map_of kvs"
    by (simp only: update_conv')
  also have "\<dots> = map_of h ++ map_of (kv # kvs)"
    using none by (auto simp: kv map_add_def fun_eq_iff split: option.splits)
  finally show ?case .
qed

lemma range_assign_maps:
  "st_maps (range_assign hdr m s) a =
     (if a = hdr then (case m of None \<Rightarrow> st_maps s hdr
        | Some b \<Rightarrow> fold (\<lambda>(k, v) h. AList.update k v h) (st_maps s b) (st_maps s hdr))
      else st_maps s a)"
  by (simp add: range_assign_def split: option.splits)

subsection \<open>URL resolution\<close>

text \<open>
  C5. For a request URL that parses: an absolute URL is returned unaltered whatever the
  base URL is; a relative URL with no base URL configured is passed through unresolved; a
  relative URL with a configured base URL that parses is resolved against it by the
  library's reference resolution.
\<close>

theorem resolveURL_cases:
  assumes "url_Parse L input = Inr u"
  shows "(url_IsAbs L u \<longrightarrow> resolveURL L c input = Inr input) \<and>
         (\<not> url_IsAbs L u \<and> BaseURL c = [] \<longrightarrow> resolveURL L c input = Inr input) \<and>
         (\<forall>base. \<not> url_IsAbs L u \<and> BaseURL c \<noteq> [] \<and> url_Parse L (BaseURL c) = Inr base \<longrightarrow>
            resolveURL L c input = Inr (url_String L (url_ResolveReference L base u)))"
  using assms by (simp add: resolveURL_def)


theorem resolveURL_cases_witness:
  "resolveURL test_lib (SetBaseURL ''https://api.example.com'' (test_client refuse)) ''https://other.org/x''
     = Inr ''https://other.org/x'' \<and>
   resolveURL test_lib (test_client refuse) ''/items/1'' = Inr ''/items/1'' \<and>
   resolveURL test_lib (SetBaseURL ''https://api.example.com'' (test_client refuse)) ''/items/1''
     = Inr ''https://api.example.com/items/1''"
  using resolveURL_cases[of test_lib "''https://other.org/x''" "''https://other.org/x''"
      "SetBaseURL ''https://api.example.com'' (test_client refuse)"]
    resolveURL_cases[of test_lib "''/items/1''" "''/items/1''" "test_client refuse"]
    resolveURL_cases[of test_lib "''/items/1''" "''/items/1''"
      "SetBaseURL ''https://api.example.com'' (test_client refuse)"]
  by (simp add: test_lib_def SetBaseURL_def test_client_def)

subsection \<open>Running the definitions\<close>

lemmas run_defs = DoRequest_def prepare_def pre_send_def entry_def descriptor_def Let_def
  resolveURL_def merge_headers_def make_map_def range_assign_def run_BeforeRequest_def
  marshal_body_def run_deferred_def attempt_body_def send_def new_request_def logf_def backoff_sleep_def
  on_response_def read_body_def response_descriptor_def call_AfterResponse_def after_hook_def decode_def new_bytes_def set_http_Body_def Header_Set_def
  Header_Get_def test_lib_def test_client_def empty_store_def reply_def refuse_def
  reject_def observe_def rejecting_client_def broken_body_client_def get_request_def get_state_def
  ok_client_def empty_body_client_def swap_body_def swapping_client_def

lemmas decode_defs = number_lib_def number_client_def scribble_def scribbling_client_def flaky_def
  flaky_client_def unset_Body_def unsetting_client_def vetoing_client_def

subsection \<open>Traces\<close>

lemma io_steps_append: "io_steps (a @ b) = io_steps a @ io_steps b"
  by (induction a rule: io_steps.induct) simp_all

lemma transport_calls_append: "transport_calls (a @ b) = transport_calls a @ transport_calls b"
  by (simp add: transport_calls_def)

lemma sint_succ:
  "0 \<le> sint (a :: 64 word) \<Longrightarrow> sint a < 2 ^ 63 - 1 \<Longrightarrow> sint (a + 1) = sint a + 1"
  by (simp add: sint_word_ariths signed_take_bit_int_eq_self)

lemma logf_fields:
  "attempt (logf c l x) = attempt x" "resp (logf c l x) = resp x" "lastErr (logf c l x) = lastErr x"
  "deferred (logf c l x) = deferred x"
  "io_steps (trace (logf c l x)) = io_steps (trace x)"
  "transport_calls (trace (logf c l x)) = transport_calls (trace x)"
  by (simp_all add: logf_def io_steps_append transport_calls_append transport_calls_def split: option.splits)

lemma io_steps_run_deferred: "io_steps (trace (run_deferred x)) = io_steps (trace x)"
proof -
  have "io_steps (map (\<lambda>d. case d of DeferCancel \<Rightarrow> CallCancel | DeferClose r \<Rightarrow> CallClose r) ds) = []" for ds
    by (induction ds) (auto split: deferred_call.splits)
  then show ?thesis by (simp add: run_deferred_def io_steps_append)
qed

lemma transport_calls_run_deferred:
  "transport_calls (trace (run_deferred x)) = transport_calls (trace x)"
proof -
  have "filter is_Do (map (\<lambda>d. case d of DeferCancel \<Rightarrow> CallCancel | DeferClose r \<Rightarrow> CallClose r) ds) = []" for ds
    by (induction ds) (auto split: deferred_call.splits)
  then show ?thesis by (simp add: run_deferred_def transport_calls_def)
qed

lemma run_BeforeRequest_trace:
  "run_BeforeRequest c mr x = (e, mr', x') \<Longrightarrow>
     io_steps (trace x') = io_steps (trace x) \<and> attempt x' = attempt x \<and>
     resp x' = resp x \<and> lastErr x' = lastErr x"
  by (auto simp: run_BeforeRequest_def io_steps_append split: option.splits prod.splits)

lemma marshal_body_trace:
  "marshal_body L mr x = Inr (ob, x') \<Longrightarrow>
     io_steps (trace x') = io_steps (trace x) \<and> attempt x' = attempt x \<and>
     resp x' = resp x \<and> lastErr x' = lastErr x"
  "marshal_body L mr x = Inl (r, x') \<Longrightarrow> io_steps (trace x') = io_steps (trace x)"
  by (auto simp: marshal_body_def Let_def io_steps_append split: option.splits sum.splits)

lemma prepare_start:
  assumes "prepare L c ctx method rawURL body hdrs s = Inr (mr, ob, x)"
  shows "io_steps (trace x) = [] \<and> attempt x = 0 \<and> resp x = None \<and> lastErr x = None"
  using assms
  by (auto simp: prepare_def pre_send_def entry_def descriptor_def Let_def split: sum.splits prod.splits option.splits
      dest!: run_BeforeRequest_trace marshal_body_trace(1))

lemma prepare_early:
  assumes "prepare L c ctx method rawURL body hdrs s = Inl (r, x)"
  shows "io_steps (trace x) = []"
  using assms
  by (auto simp: prepare_def pre_send_def entry_def descriptor_def Let_def split: sum.splits prod.splits option.splits
      dest!: run_BeforeRequest_trace marshal_body_trace(2))

lemma length_transport_calls: "length (transport_calls tr) = length (filter (\<lambda>s. s = Attempt) (io_steps tr))"
  by (induction tr rule: io_steps.induct) (simp_all add: transport_calls_def)


lemma extends_refl: "extends b n x x"
  by (simp add: extends_def)

lemma extends_trans: "extends b n x y \<Longrightarrow> extends b m y z \<Longrightarrow> extends b (n + m) x z"
  by (fastforce simp: extends_def)

lemma extends_mono: "extends b n x y \<Longrightarrow> n \<le> m \<Longrightarrow> extends b m x y"
  by (auto simp: extends_def)

lemma extends_eq_trace: "trace y = trace x \<Longrightarrow> extends b n x y"
  by (simp add: extends_def)

lemma extends_logf: "extends b 0 x (logf c l x)"
  by (simp add: extends_def logf_def split: option.splits)

lemma extends_backoff_sleep: "extends b 0 x (flow_state (backoff_sleep c x))"
  by (simp add: extends_def backoff_sleep_def)

lemma extends_decode: "extends b 0 x (flow_state (decode L out r rb x))"
  by (simp add: extends_def decode_def Let_def split: option.splits out_target.splits prod.splits)

lemma extends_after_hook: "extends b 0 x (flow_state (after_hook L c out r rb x))"
proof (cases "http_Body (st_resp (heap x) r)")
  case None
  then show ?thesis by (simp add: after_hook_def extends_refl)
next
  case (Some rd)
  obtain bs e rd' where ra: "io_ReadAll rd = ((bs, e), rd')" by (metis prod.exhaust)
  let ?x1 = "x\<lparr>deferred := DeferClose r # deferred x\<rparr>"
  have a: "extends b 0 x ?x1" by (simp add: extends_eq_trace)
  show ?thesis
  proof (cases "sint (http_StatusCode (st_resp (heap x) r)) < 200 \<or> 300 \<le> sint (http_StatusCode (st_resp (heap x) r))")
    case True
    let ?x2 = "?x1\<lparr>heap := set_http_Body r rd' (heap ?x1),
                  lastErr := Some (HTTPStatus (http_StatusCode (st_resp (heap x) r)) bs)\<rparr>"
    have "after_hook L c out r rb x = backoff_sleep c ?x2"
      using True by (simp add: after_hook_def Some ra Let_def)
    moreover have "extends b 0 x ?x2" by (simp add: extends_eq_trace)
    ultimately show ?thesis
      using extends_trans[OF _ extends_backoff_sleep[of b ?x2 c], of 0 x] by simp
  next
    case False
    then have "after_hook L c out r rb x = decode L out r rb ?x1"
      by (simp add: after_hook_def Some Let_def)
    then show ?thesis
      using extends_trans[OF a extends_decode[of b ?x1 L out r rb]] by simp
  qed
qed

lemma read_body_trace:
  "read_body r x = Inl (res, x') \<Longrightarrow> trace x' = trace x"
  "read_body r x = Inr (a, x') \<Longrightarrow> trace x' = trace x"
  by (auto simp: read_body_def new_bytes_def Let_def split: option.splits prod.splits)

lemma extends_call_AfterResponse:
  "call_AfterResponse c r a x = (e, mr, x') \<Longrightarrow> extends b 0 x x'"
  by (auto simp: call_AfterResponse_def extends_def split: option.splits prod.splits)

lemma extends_on_response: "extends b 0 x (flow_state (on_response L c out x))"
proof (cases "resp x")
  case None
  then show ?thesis by (simp add: on_response_def extends_refl)
next
  case (Some r)
  show ?thesis
  proof (cases "read_body r x")
    case (Inl t)
    obtain res x1 where t: "t = (res, x1)" by (cases t)
    from read_body_trace(1)[OF Inl[unfolded t]] show ?thesis
      by (simp add: on_response_def Some Inl t extends_eq_trace)
  next
    case (Inr t)
    obtain a x2 where t: "t = (a, x2)" by (cases t)
    from read_body_trace(2)[OF Inr[unfolded t]] have e2: "extends b 0 x x2"
      by (simp add: extends_eq_trace)
    obtain herr mr x3 where ca: "call_AfterResponse c r a x2 = (herr, mr, x3)"
      by (metis prod.exhaust)
    from extends_trans[OF e2 extends_call_AfterResponse[OF ca, of b]]
    have e3: "extends b 0 x x3" by simp
    show ?thesis
    proof (cases herr)
      case None
      then have "on_response L c out x = after_hook L c out r a x3"
        by (simp add: on_response_def Some Inr t ca)
      then show ?thesis
        using extends_trans[OF e3 extends_after_hook[of b x3 L c out r a]] by simp
    next
      case (Some err)
      then have "on_response L c out x = Exit (Return (Some r) (Some (AfterResponseHookFailed err))) x3"
        by (simp add: on_response_def \<open>resp x = Some r\<close> Inr t ca)
      then show ?thesis using e3 by simp
    qed
  qed
qed

lemma new_request_body:
  "new_request L mr ob s = Inr req \<Longrightarrow> hreq_Body req = sent_body mr ob"
  by (auto simp: new_request_def sent_body_def Let_def split: option.splits)

lemma extends_attempt_body:
  "extends (sent_body mr ob) 1 x (flow_state (attempt_body L c mr ob out x))"
proof (cases "new_request L mr ob (heap x)")
  case (Inl err)
  then show ?thesis by (simp add: attempt_body_def send_def extends_refl)
next
  case (Inr req)
  let ?b = "sent_body mr ob"
  let ?x1 = "logf c (LogRequest (req_Method mr) (req_URL mr) (attempt x + 1)) x"
  have e1: "extends ?b 0 x ?x1" by (rule extends_logf)
  show ?thesis
  proof (cases "client c")
    case None
    then show ?thesis using extends_mono[OF e1, of 1] by (simp add: attempt_body_def send_def Inr)
  next
    case (Some d)
    obtain p e h where d: "d (heap ?x1) req = ((p, e), h)" by (metis prod.exhaust)
    let ?x2 = "?x1\<lparr>heap := h, resp := p, trace := trace ?x1 @ [CallDo req p e]\<rparr>"
    have "extends ?b 1 ?x1 ?x2"
      using new_request_body[OF Inr] by (simp add: extends_def)
    with e1 have e2: "extends ?b 1 x ?x2" using extends_trans by fastforce
    show ?thesis
    proof (cases e)
      case None
      then have "attempt_body L c mr ob out x = on_response L c out ?x2"
        by (simp add: attempt_body_def send_def Inr Some d Let_def)
      then show ?thesis
        using extends_trans[OF e2 extends_on_response[of ?b ?x2 L c out]] by simp
    next
      case (Some err)
      let ?x3 = "logf c (LogRequestFailed err) (?x2\<lparr>lastErr := Some err\<rparr>)"
      have "extends ?b 0 ?x2 (?x2\<lparr>lastErr := Some err\<rparr>)" by (simp add: extends_eq_trace)
      from extends_trans[OF this extends_logf[of ?b "?x2\<lparr>lastErr := Some err\<rparr>" c "LogRequestFailed err"]]
      have "extends ?b 0 ?x2 ?x3" by simp
      from extends_trans[OF e2 this] have e3: "extends ?b 1 x ?x3" by simp
      have "attempt_body L c mr ob out x = backoff_sleep c ?x3"
        using Some by (simp add: attempt_body_def send_def Inr \<open>client c = Some d\<close> d Let_def)
      then show ?thesis
        using extends_trans[OF e3 extends_backoff_sleep[of ?b ?x3 c]] by simp
    qed
  qed
qed


lemma extends_retry_loop:
  "\<exists>n. extends (sent_body mr ob) n x (snd (retry_loop L c mr ob out x))"
proof (induction L c mr ob out x rule: retry_loop.induct)
  case (1 L c mr ob out x)
  show ?case
  proof (cases "sint (attempt x) \<le> sint (maxRetries c)")
    case False
    then have "snd (retry_loop L c mr ob out x) = x"
      by (subst retry_loop.simps) simp
    then show ?thesis using extends_refl by metis
  next
    case True
    note step = extends_attempt_body[of mr ob x L c out]
    show ?thesis
    proof (cases "attempt_body L c mr ob out x")
      case (Exit r x')
      then have "snd (retry_loop L c mr ob out x) = x'"
        using True by (subst retry_loop.simps) simp
      then show ?thesis using step Exit by auto
    next
      case (Continue x')
      let ?z = "x'\<lparr>attempt := attempt x' + 1\<rparr>"
      from "1.IH"[OF True Continue] obtain n
        where n: "extends (sent_body mr ob) n ?z (snd (retry_loop L c mr ob out ?z))" by blast
      have "extends (sent_body mr ob) 1 x ?z"
        using step Continue by (simp add: extends_def)
      from extends_trans[OF this n]
      have "extends (sent_body mr ob) (1 + n) x (snd (retry_loop L c mr ob out ?z))" .
      moreover have "retry_loop L c mr ob out x = retry_loop L c mr ob out ?z"
        using True Continue by (subst retry_loop.simps) simp
      ultimately show ?thesis by auto
    qed
  qed
qed

lemma backoff_sleep_Continue:
  "backoff_sleep c x = Continue x' \<Longrightarrow> attempt x' = attempt x \<and> 0 \<le> sint (attempt x)"
  by (auto simp: backoff_sleep_def split: if_splits)

lemma decode_Continue: "decode L out r rb x \<noteq> Continue x'"
  by (simp add: decode_def Let_def split: option.splits out_target.splits prod.splits)

lemma after_hook_Continue:
  "after_hook L c out r rb x = Continue x' \<Longrightarrow> attempt x' = attempt x \<and> 0 \<le> sint (attempt x)"
  by (auto simp: after_hook_def Let_def decode_Continue split: option.splits if_splits prod.splits
      dest!: backoff_sleep_Continue)

lemma on_response_Continue:
  "on_response L c out x = Continue x' \<Longrightarrow> attempt x' = attempt x \<and> 0 \<le> sint (attempt x)"
  by (auto simp: on_response_def read_body_def call_AfterResponse_def Let_def
      split: option.splits if_splits prod.splits sum.splits dest!: after_hook_Continue)

lemma attempt_body_Continue:
  "attempt_body L c mr ob out x = Continue x' \<Longrightarrow> attempt x' = attempt x \<and> 0 \<le> sint (attempt x)"
  by (auto simp: attempt_body_def send_def Let_def logf_fields split: sum.splits option.splits prod.splits
      dest!: on_response_Continue backoff_sleep_Continue)

lemma retry_loop_no_retries:
  assumes "maxRetries c = 0" and "attempt x = 0"
  shows "extends (sent_body mr ob) 1 x (snd (retry_loop L c mr ob out x))"
proof (cases "attempt_body L c mr ob out x")
  case (Exit r x')
  then have "snd (retry_loop L c mr ob out x) = x'"
    using assms by (subst retry_loop.simps) simp
  then show ?thesis using extends_attempt_body[of mr ob x L c out] Exit by simp
next
  case (Continue x')
  let ?z = "x'\<lparr>attempt := attempt x' + 1\<rparr>"
  have ax: "attempt x' = 0"
    using attempt_body_Continue[OF Continue] assms by simp
  have "retry_loop L c mr ob out x = retry_loop L c mr ob out ?z"
    using assms Continue by (subst retry_loop.simps) simp
  also have "\<dots> = (Return (resp ?z) (Some (RequestFailedAfter (maxRetries c + 1) (lastErr ?z))), ?z)"
    using assms ax by (subst retry_loop.simps) simp
  finally have "snd (retry_loop L c mr ob out x) = ?z" by simp
  then show ?thesis using extends_attempt_body[of mr ob x L c out] Continue by (simp add: extends_def)
qed

lemma filter_extends:
  assumes "extends b n x x'" and "\<And>ev. attempt_event b ev \<Longrightarrow> \<not> P ev"
  shows "filter P (trace x') = filter P (trace x)"
proof -
  from assms(1) obtain evs where t: "trace x' = trace x @ evs" and a: "list_all (attempt_event b) evs"
    by (auto simp: extends_def)
  from a assms(2) have "filter P evs = []"
    by (induction evs) auto
  with t show ?thesis by simp
qed

lemma filter_run_deferred:
  assumes "\<not> P CallCancel" and "\<And>r. \<not> P (CallClose r)"
  shows "filter P (trace (run_deferred x)) = filter P (trace x)"
proof -
  have "filter P (map (\<lambda>d. case d of DeferCancel \<Rightarrow> CallCancel | DeferClose r \<Rightarrow> CallClose r) ds) = []" for ds
    using assms by (induction ds) (auto split: deferred_call.splits)
  then show ?thesis by (simp add: run_deferred_def)
qed

lemma run_BeforeRequest_events:
  "run_BeforeRequest c mr x = (e, mr', x') \<Longrightarrow>
     trace x' = trace x @ pre_send_events c \<and> attempt x' = attempt x"
  by (auto simp: run_BeforeRequest_def pre_send_events_def split: option.splits prod.splits)

lemma pre_send_Inr:
  assumes "pre_send L c ctx method rawURL body hdrs s = Inr (mr, x)"
  shows "trace x = pre_send_events c \<and> attempt x = 0 \<and> (\<exists>u. resolveURL L c rawURL = Inr u)"
  using assms
  by (auto simp: pre_send_def entry_def split: sum.splits prod.splits option.splits
      dest!: run_BeforeRequest_events)

lemma pre_send_Inl:
  assumes "pre_send L c ctx method rawURL body hdrs s = Inl (r, x)"
  shows "trace x = (case resolveURL L c rawURL of Inl _ \<Rightarrow> [] | Inr _ \<Rightarrow> pre_send_events c)"
  using assms
  by (auto simp: pre_send_def entry_def split: sum.splits prod.splits option.splits
      dest!: run_BeforeRequest_events)

lemma marshal_body_Inr:
  "marshal_body L mr x = Inr (ob, x') \<Longrightarrow>
     trace x' = trace x @ (case req_Body mr of None \<Rightarrow> [] | Some _ \<Rightarrow> [CallMarshal]) \<and>
     attempt x' = attempt x \<and> (\<forall>b. req_Body mr = Some b \<longrightarrow> json_Marshal L b = Inr ob)"
  by (auto simp: marshal_body_def Let_def split: option.splits sum.splits)

lemma marshal_body_Inl:
  "marshal_body L mr x = Inl (r, x') \<Longrightarrow>
     \<exists>b e. req_Body mr = Some b \<and> json_Marshal L b = Inl e \<and>
       r = Return None (Some (MarshalBodyFailed e)) \<and> trace x' = trace x @ [CallMarshal]"
  by (auto simp: marshal_body_def Let_def split: option.splits sum.splits)

text \<open>The three ways through a call.\<close>

lemma DoRequest_early:
  assumes "pre_send L c ctx method rawURL body hdrs s = Inl (r, x)"
  shows "DoRequest L c ctx method rawURL body out hdrs s = (r, run_deferred x)"
  using assms by (simp add: DoRequest_def prepare_def)

lemma DoRequest_marshal_failed:
  assumes "pre_send L c ctx method rawURL body hdrs s = Inr (mr, x2)"
    and "marshal_body L mr x2 = Inl (r, x)"
  shows "DoRequest L c ctx method rawURL body out hdrs s = (r, run_deferred x)"
  using assms by (simp add: DoRequest_def prepare_def)

lemma DoRequest_loop:
  assumes "pre_send L c ctx method rawURL body hdrs s = Inr (mr, x2)"
    and "marshal_body L mr x2 = Inr (ob, x3)"
  shows "DoRequest L c ctx method rawURL body out hdrs s
           = (fst (retry_loop L c mr ob out x3), run_deferred (snd (retry_loop L c mr ob out x3)))"
  using assms by (simp add: DoRequest_def prepare_def split_beta)

lemma filter_DoRequest:
  assumes P: "\<And>b ev. attempt_event b ev \<Longrightarrow> \<not> P ev" "\<not> P CallCancel" "\<And>r. \<not> P (CallClose r)"
  shows "filter P (trace (snd (DoRequest L c ctx method rawURL body out hdrs s)))
         = (case pre_send L c ctx method rawURL body hdrs s of
              Inl (r, x) \<Rightarrow> filter P (trace x)
            | Inr (mr, x2) \<Rightarrow>
                filter P (trace x2 @ (case req_Body mr of None \<Rightarrow> [] | Some _ \<Rightarrow> [CallMarshal])))"
proof (cases "pre_send L c ctx method rawURL body hdrs s")
  case (Inl early)
  obtain r x where e: "early = (r, x)" by (cases early)
  show ?thesis
    using DoRequest_early[OF Inl[unfolded e], of out] filter_run_deferred[of P x, OF P(2,3)]
    by (simp add: Inl e)
next
  case (Inr t)
  obtain mr x2 where t: "t = (mr, x2)" by (cases t)
  note ps = Inr[unfolded t]
  show ?thesis
  proof (cases "marshal_body L mr x2")
    case (Inl early)
    obtain r x where e: "early = (r, x)" by (cases early)
    from marshal_body_Inl[OF Inl[unfolded e]] obtain b where "req_Body mr = Some b"
      and "trace x = trace x2 @ [CallMarshal]" by blast
    then show ?thesis
      using DoRequest_marshal_failed[OF ps Inl[unfolded e], of out] filter_run_deferred[of P x, OF P(2,3)]
      by (simp add: Inr t)
  next
    case m: (Inr t')
    obtain ob x3 where t': "t' = (ob, x3)" by (cases t')
    from marshal_body_Inr[OF m[unfolded t']]
    have tr: "trace x3 = trace x2 @ (case req_Body mr of None \<Rightarrow> [] | Some _ \<Rightarrow> [CallMarshal])"
      by simp
    from extends_retry_loop[of mr ob x3 L c out] obtain n
      where "extends (sent_body mr ob) n x3 (snd (retry_loop L c mr ob out x3))" by blast
    from filter_extends[OF this, of P] P(1)
    have "filter P (trace (snd (retry_loop L c mr ob out x3))) = filter P (trace x3)" by blast
    then show ?thesis
      using DoRequest_loop[OF ps m[unfolded t'], of out]
        filter_run_deferred[of P "snd (retry_loop L c mr ob out x3)", OF P(2,3)] tr
      by (simp add: Inr t)
  qed
qed

lemma run_deferred_trace:
  "\<exists>evs. trace (run_deferred x) = trace x @ evs \<and>
         (\<forall>ev\<in>set evs. ev = CallCancel \<or> (\<exists>r. ev = CallClose r))"
  by (auto simp: run_deferred_def split: deferred_call.splits)

lemma sent_bodies_append: "sent_bodies (a @ b) = sent_bodies a @ sent_bodies b"
  by (induction a rule: sent_bodies.induct) simp_all

lemma sent_bodies_no_Do: "filter is_Do evs = [] \<Longrightarrow> sent_bodies evs = []"
  by (induction evs rule: sent_bodies.induct) simp_all

lemma sent_bodies_extends0:
  "extends b 0 x x' \<Longrightarrow> sent_bodies (trace x') = sent_bodies (trace x)"
  by (auto simp: extends_def sent_bodies_append sent_bodies_no_Do)

lemma sent_bodies_extends:
  "extends b n x x' \<Longrightarrow> \<exists>ys. sent_bodies (trace x') = sent_bodies (trace x) @ ys"
  by (auto simp: extends_def sent_bodies_append)

lemma attempt_body_sends:
  assumes nr: "NewRequest_check L (req_Context mr) (req_Method mr) (req_URL mr) = None"
    and cl: "client c = Some d"
  shows "sent_bodies (trace (flow_state (attempt_body L c mr ob out x)))
           = sent_bodies (trace x) @ [sent_body mr ob]"
proof -
  obtain req where req: "new_request L mr ob (heap x) = Inr req"
    using nr by (simp add: new_request_def Let_def)
  let ?b = "sent_body mr ob"
  let ?x1 = "logf c (LogRequest (req_Method mr) (req_URL mr) (attempt x + 1)) x"
  obtain p e h where d: "d (heap ?x1) req = ((p, e), h)" by (metis prod.exhaust)
  let ?x2 = "?x1\<lparr>heap := h, resp := p, trace := trace ?x1 @ [CallDo req p e]\<rparr>"
  have s1: "sent_bodies (trace ?x1) = sent_bodies (trace x)"
    using sent_bodies_extends0[OF extends_logf[of ?b x c]] by simp
  have s2: "sent_bodies (trace ?x2) = sent_bodies (trace x) @ [?b]"
    using s1 new_request_body[OF req] by (simp add: sent_bodies_append)
  show ?thesis
  proof (cases e)
    case None
    then have "attempt_body L c mr ob out x = on_response L c out ?x2"
      by (simp add: attempt_body_def send_def req cl d Let_def)
    then show ?thesis
      using sent_bodies_extends0[OF extends_on_response[of ?b ?x2 L c out]] s2 by simp
  next
    case (Some err)
    let ?x3 = "logf c (LogRequestFailed err) (?x2\<lparr>lastErr := Some err\<rparr>)"
    have s3: "sent_bodies (trace ?x3) = sent_bodies (trace x) @ [?b]"
      using sent_bodies_extends0[OF extends_logf[of ?b "?x2\<lparr>lastErr := Some err\<rparr>" c]] s2 by simp
    have "attempt_body L c mr ob out x = backoff_sleep c ?x3"
      using Some by (simp add: attempt_body_def send_def req cl d Let_def)
    then show ?thesis
      using sent_bodies_extends0[OF extends_backoff_sleep[of ?b ?x3 c]] s3 by simp
  qed
qed

lemma retry_loop_first_attempt:
  assumes "sint (attempt x) \<le> sint (maxRetries c)"
  shows "\<exists>n. extends (sent_body mr ob) n (flow_state (attempt_body L c mr ob out x))
               (snd (retry_loop L c mr ob out x))"
proof (cases "attempt_body L c mr ob out x")
  case (Exit res x')
  then have "snd (retry_loop L c mr ob out x) = x'"
    using assms by (subst retry_loop.simps) simp
  then show ?thesis using Exit extends_refl by fastforce
next
  case (Continue x')
  let ?z = "x'\<lparr>attempt := attempt x' + 1\<rparr>"
  have "retry_loop L c mr ob out x = retry_loop L c mr ob out ?z"
    using assms Continue by (subst retry_loop.simps) simp
  moreover from extends_retry_loop[of mr ob ?z L c out] obtain n
    where "extends (sent_body mr ob) n ?z (snd (retry_loop L c mr ob out ?z))" by blast
  then have "extends (sent_body mr ob) n x' (snd (retry_loop L c mr ob out ?z))"
    by (simp add: extends_def)
  ultimately show ?thesis using Continue by auto
qed

subsection \<open>A transport that always fails\<close>

text \<open>An attempt on which the transport returns an error.\<close>

lemma attempt_body_transport_error:
  assumes nr: "NewRequest_check L (req_Context mr) (req_Method mr) (req_URL mr) = None"
    and cl: "client c = Some d"
    and fails: "\<forall>s req. snd (fst (d s req)) \<noteq> None"
  shows "\<exists>y req e. attempt_body L c mr ob out x = backoff_sleep c y \<and>
           attempt y = attempt x \<and> lastErr y = Some e \<and>
           io_steps (trace y) = io_steps (trace x) @ [Attempt] \<and>
           transport_calls (trace y) = transport_calls (trace x) @ [CallDo req (resp y) (Some e)]"
proof -
  obtain req where req: "new_request L mr ob (heap x) = Inr req"
    using nr by (simp add: new_request_def Let_def)
  let ?x1 = "logf c (LogRequest (req_Method mr) (req_URL mr) (attempt x + 1)) x"
  obtain p e h where d: "d (heap ?x1) req = ((p, Some e), h)"
    using fails[rule_format, of "heap ?x1" req] by (cases "d (heap ?x1) req") auto
  let ?y = "logf c (LogRequestFailed e)
              (?x1\<lparr>heap := h, resp := p, trace := trace ?x1 @ [CallDo req p (Some e)], lastErr := Some e\<rparr>)"
  have "attempt_body L c mr ob out x = backoff_sleep c ?y"
    by (simp add: attempt_body_def send_def req cl d Let_def)
  moreover have "attempt ?y = attempt x" "lastErr ?y = Some e" "resp ?y = p"
    "io_steps (trace ?y) = io_steps (trace x) @ [Attempt]"
    "transport_calls (trace ?y) = transport_calls (trace x) @ [CallDo req p (Some e)]"
    by (simp_all add: logf_fields io_steps_append transport_calls_append)
       (simp add: transport_calls_def)
  ultimately show ?thesis
    by (intro exI[of _ ?y] exI[of _ req] exI[of _ e]) simp
qed

lemma backoff_sleep_nonneg:
  "0 \<le> sint (attempt y) \<Longrightarrow>
   backoff_sleep c y = Continue (y\<lparr>trace := trace y @ [CallSleep (backoff c * 2 ^ nat (sint (attempt y)))]\<rparr>)"
  by (simp add: backoff_sleep_def push_bit_of_1)

lemma retry_loop_failing:
  "NewRequest_check L (req_Context mr) (req_Method mr) (req_URL mr) = None \<Longrightarrow>
   client c = Some d \<Longrightarrow> \<forall>s req. snd (fst (d s req)) \<noteq> None \<Longrightarrow>
   sint (maxRetries c) < 2 ^ 63 - 1 \<Longrightarrow>
         0 \<le> sint (attempt x) \<Longrightarrow> sint (attempt x) \<le> sint (maxRetries c) + 1 \<Longrightarrow>
         sint (attempt x) \<le> sint (maxRetries c) \<or> last_call_failed x \<Longrightarrow>
         (\<exists>x'. retry_loop L c mr ob out x
                 = (Return (resp x') (Some (RequestFailedAfter (maxRetries c + 1) (lastErr x'))), x') \<and>
               last_call_failed x' \<and>
               io_steps (trace x') = io_steps (trace x) @
                 concat (map (\<lambda>i. [Attempt, Sleep (backoff c * 2 ^ i)])
                   [nat (sint (attempt x))..<nat (sint (maxRetries c) + 1)]))"
proof (induction L c mr ob out x rule: retry_loop.induct)
  case (1 L c mr ob out x)
  note nn = \<open>0 \<le> sint (attempt x)\<close>
  note bound = \<open>sint (attempt x) \<le> sint (maxRetries c) + 1\<close>
  note disj = \<open>sint (attempt x) \<le> sint (maxRetries c) \<or> last_call_failed x\<close>
  show ?case
  proof (cases "sint (attempt x) \<le> sint (maxRetries c)")
    case False
    with bound disj have "last_call_failed x" and "sint (attempt x) = sint (maxRetries c) + 1"
      by auto
    then show ?thesis using False
      by (subst retry_loop.simps) simp
  next
    case True
    from attempt_body_transport_error[OF "1.prems"(1,2,3), of ob out x]
    obtain y req e where ab: "attempt_body L c mr ob out x = backoff_sleep c y"
      and ay: "attempt y = attempt x" and le: "lastErr y = Some e"
      and io: "io_steps (trace y) = io_steps (trace x) @ [Attempt]"
      and tc: "transport_calls (trace y) = transport_calls (trace x) @ [CallDo req (resp y) (Some e)]"
      by blast
    let ?y' = "y\<lparr>trace := trace y @ [CallSleep (backoff c * 2 ^ nat (sint (attempt y)))]\<rparr>"
    let ?z = "?y'\<lparr>attempt := attempt ?y' + 1\<rparr>"
    have cont: "attempt_body L c mr ob out x = Continue ?y'"
      using ab backoff_sleep_nonneg[of y c] nn ay by simp
    have sz: "sint (attempt ?z) = sint (attempt x) + 1"
      using sint_succ[of "attempt x"] nn True "1.prems"(4) ay by simp
    have lcf: "last_call_failed ?z"
      by (simp add: last_call_failed_def le tc transport_calls_append) (simp add: transport_calls_def)
    from "1.IH"[OF True cont "1.prems"(1,2,3,4)] sz nn True lcf
    obtain x' where r: "retry_loop L c mr ob out ?z
                 = (Return (resp x') (Some (RequestFailedAfter (maxRetries c + 1) (lastErr x'))), x')"
      and l': "last_call_failed x'"
      and io': "io_steps (trace x') = io_steps (trace ?z) @
                 concat (map (\<lambda>i. [Attempt, Sleep (backoff c * 2 ^ i)])
                   [nat (sint (attempt ?z))..<nat (sint (maxRetries c) + 1)])"
      by auto
    have upt: "[nat (sint (attempt x))..<nat (sint (maxRetries c) + 1)]
               = nat (sint (attempt x)) # [nat (sint (attempt ?z))..<nat (sint (maxRetries c) + 1)]"
    proof -
      have "nat (sint (attempt ?z)) = Suc (nat (sint (attempt x)))"
        using nn sz by (simp add: nat_add_distrib)
      moreover have "nat (sint (attempt x)) < nat (sint (maxRetries c) + 1)"
        using nn True by simp
      ultimately show ?thesis by (simp only: upt_conv_Cons)
    qed
    have "retry_loop L c mr ob out x = retry_loop L c mr ob out ?z"
      by (subst retry_loop.simps) (simp add: True cont)
    with r l' io' upt show ?thesis
      by (simp add: io_steps_append io ay)
  qed
qed


lemma retry_loop_max_panics:
  "NewRequest_check L (req_Context mr) (req_Method mr) (req_URL mr) = None \<Longrightarrow>
   client c = Some d \<Longrightarrow> \<forall>s req. snd (fst (d s req)) \<noteq> None \<Longrightarrow>
   maxRetries c = max_int \<Longrightarrow>
   fst (retry_loop L c mr ob out x) = Panic"
proof (induction L c mr ob out x rule: retry_loop.induct)
  case (1 L c mr ob out x)
  have le: "sint (attempt x) \<le> sint (maxRetries c)"
    using sint_lt[of "attempt x"] "1.prems"(4) by (simp add: max_int_def)
  from attempt_body_transport_error[OF "1.prems"(1,2,3), of ob out x]
  obtain y where ab: "attempt_body L c mr ob out x = backoff_sleep c y"
    and ay: "attempt y = attempt x"
    by blast
  show ?case
  proof (cases "sint (attempt x) < 0")
    case True
    then have "attempt_body L c mr ob out x = Exit Panic y"
      using ab ay by (simp add: backoff_sleep_def)
    then show ?thesis using le by (subst retry_loop.simps) simp
  next
    case False
    then obtain y' where cont: "attempt_body L c mr ob out x = Continue y'"
      using ab ay by (simp add: backoff_sleep_def)
    from "1.IH"[OF le cont "1.prems"] have "fst (retry_loop L c mr ob out (y'\<lparr>attempt := attempt y' + 1\<rparr>)) = Panic" .
    then show ?thesis using le cont by (subst retry_loop.simps) simp
  qed
qed

text \<open>
  C1 (amended). Let a call get as far as the transport (the URL resolves, the pre-send
  hook and the serialization succeed, so that the call reaches the retry loop, and the
  transport request can be built), and let the transport return an error on every
  invocation. If \<open>0 \<le> maxRetries = N < 2^63 - 1\<close>, then \<open>DoRequest\<close> invokes the transport
  exactly \<open>N + 1\<close> times, sleeping \<open>backoff * 2^i\<close> between attempts, where \<open>i\<close> counts the
  failed attempts from 0 and the product is the \<open>time.Duration\<close> one, which wraps (the same
  sleep also follows the last attempt), and it returns the error
  \<open>request failed after N+1 attempts\<close> that wraps the error of the last transport
  invocation. With \<open>maxRetries = 0\<close> every call, whatever its collaborators do, makes at
  most one transport attempt.
\<close>

theorem DoRequest_failing_transport:
  "(\<forall>mr ob x0 d.
      prepare L c ctx method rawURL body hdrs s = Inr (mr, ob, x0) \<and>
      NewRequest_check L (req_Context mr) (req_Method mr) (req_URL mr) = None \<and>
      client c = Some d \<and> (\<forall>s' req. snd (fst (d s' req)) \<noteq> None) \<and>
      0 \<le> sint (maxRetries c) \<and> sint (maxRetries c) < 2 ^ 63 - 1 \<longrightarrow>
      (\<exists>p req e x.
         DoRequest L c ctx method rawURL body out hdrs s
           = (Return p (Some (RequestFailedAfter (maxRetries c + 1) (Some e))), x) \<and>
         io_steps (trace x) = concat (map (\<lambda>i. [Attempt, Sleep (backoff c * 2 ^ i)])
                                         [0..<nat (sint (maxRetries c)) + 1]) \<and>
         length (transport_calls (trace x)) = nat (sint (maxRetries c)) + 1 \<and>
         last (transport_calls (trace x)) = CallDo req p (Some e))) \<and>
   (maxRetries c = 0 \<longrightarrow>
      length (transport_calls (trace (snd (DoRequest L c ctx method rawURL body out hdrs s)))) \<le> 1)"
proof (intro conjI allI impI)
  fix mr ob x0 d
  assume h: "prepare L c ctx method rawURL body hdrs s = Inr (mr, ob, x0) \<and>
      NewRequest_check L (req_Context mr) (req_Method mr) (req_URL mr) = None \<and>
      client c = Some d \<and> (\<forall>s' req. snd (fst (d s' req)) \<noteq> None) \<and>
      0 \<le> sint (maxRetries c) \<and> sint (maxRetries c) < 2 ^ 63 - 1"
  then have pr: "prepare L c ctx method rawURL body hdrs s = Inr (mr, ob, x0)"
    and nr: "NewRequest_check L (req_Context mr) (req_Method mr) (req_URL mr) = None"
    and cl: "client c = Some d" and fails: "\<forall>s' req. snd (fst (d s' req)) \<noteq> None"
    and nn: "0 \<le> sint (maxRetries c)" and small: "sint (maxRetries c) < 2 ^ 63 - 1"
    by simp_all
  from prepare_start[OF pr] have io0: "io_steps (trace x0) = []" and a0: "attempt x0 = 0"
    by simp_all
  from retry_loop_failing[OF nr cl fails small, of x0 ob out] a0 nn
  obtain x' where r: "retry_loop L c mr ob out x0
                 = (Return (resp x') (Some (RequestFailedAfter (maxRetries c + 1) (lastErr x'))), x')"
    and lcf: "last_call_failed x'"
    and io: "io_steps (trace x') = io_steps (trace x0) @
                 concat (map (\<lambda>i. [Attempt, Sleep (backoff c * 2 ^ i)])
                   [nat (sint (attempt x0))..<nat (sint (maxRetries c) + 1)])"
    by auto
  from lcf obtain req e where le: "lastErr x' = Some e"
    and last: "last (transport_calls (trace x')) = CallDo req (resp x') (Some e)"
    by (auto simp: last_call_failed_def)
  let ?N = "nat (sint (maxRetries c)) + 1"
  have n1: "nat (sint (maxRetries c) + 1) = ?N" using nn by (simp add: nat_add_distrib)
  have io': "io_steps (trace x') = concat (map (\<lambda>i. [Attempt, Sleep (backoff c * 2 ^ i)]) [0..<?N])"
    using io io0 a0 n1 by simp
  have cnt: "length (filter (\<lambda>s. s = Attempt)
               (concat (map (\<lambda>i. [Attempt, Sleep (backoff c * 2 ^ i)]) [0..<k]))) = k" for k
    by (induction k) simp_all
  have len: "length (transport_calls (trace x')) = ?N"
    by (simp only: length_transport_calls io' cnt)
  have "DoRequest L c ctx method rawURL body out hdrs s
          = (Return (resp x') (Some (RequestFailedAfter (maxRetries c + 1) (Some e))), run_deferred x')"
    by (simp add: DoRequest_def pr r le)
  with io' len last
  show "\<exists>p req e x.
         DoRequest L c ctx method rawURL body out hdrs s
           = (Return p (Some (RequestFailedAfter (maxRetries c + 1) (Some e))), x) \<and>
         io_steps (trace x) = concat (map (\<lambda>i. [Attempt, Sleep (backoff c * 2 ^ i)])
                                         [0..<nat (sint (maxRetries c)) + 1]) \<and>
         length (transport_calls (trace x)) = nat (sint (maxRetries c)) + 1 \<and>
         last (transport_calls (trace x)) = CallDo req p (Some e)"
    by (intro exI[of _ "resp x'"] exI[of _ req] exI[of _ e] exI[of _ "run_deferred x'"])
       (simp add: io_steps_run_deferred transport_calls_run_deferred)
next
  assume z: "maxRetries c = 0"
  show "length (transport_calls (trace (snd (DoRequest L c ctx method rawURL body out hdrs s)))) \<le> 1"
  proof (cases "prepare L c ctx method rawURL body hdrs s")
    case (Inl early)
    obtain r x where e: "early = (r, x)" by (cases early)
    from prepare_early[OF Inl[unfolded e]] have "transport_calls (trace x) = []"
      using length_transport_calls[of "trace x"] by simp
    then show ?thesis by (simp add: DoRequest_def Inl e transport_calls_run_deferred)
  next
    case (Inr t)
    obtain mr ob x0 where t: "t = (mr, ob, x0)" by (cases t)
    from prepare_start[OF Inr[unfolded t]] have a0: "attempt x0 = 0"
      and "io_steps (trace x0) = []" by simp_all
    then have t0: "transport_calls (trace x0) = []"
      using length_transport_calls[of "trace x0"] by simp
    from retry_loop_no_retries[OF z a0, of mr ob L out]
    obtain evs where "trace (snd (retry_loop L c mr ob out x0)) = trace x0 @ evs"
      and "length (filter is_Do evs) \<le> 1"
      by (auto simp: extends_def)
    then have "length (transport_calls (trace (snd (retry_loop L c mr ob out x0)))) \<le> 1"
      using t0 by (simp add: transport_calls_append) (simp add: transport_calls_def)
    then show ?thesis
      by (simp add: DoRequest_def Inr t split_beta transport_calls_run_deferred)
  qed
qed


theorem DoRequest_failing_transport_witness:
  "0 \<le> sint (maxRetries retry_client) \<and> sint (maxRetries retry_client) < 2 ^ 63 - 1 \<and>
   (\<exists>p req e x.
      DoRequest test_lib retry_client None ''GET'' ''http://h/'' None None None empty_store
        = (Return p (Some (RequestFailedAfter 3 (Some e))), x) \<and>
      io_steps (trace x) = [Attempt, Sleep 10, Attempt, Sleep 20, Attempt, Sleep 40] \<and>
      length (transport_calls (trace x)) = 3 \<and>
      last (transport_calls (trace x)) = CallDo req p (Some e)) \<and>
   maxRetries (test_client refuse) = 0 \<and>
   length (transport_calls (trace (snd
      (DoRequest test_lib (test_client refuse) None ''GET'' ''http://h/'' None None None empty_store)))) \<le> 1"
proof -
  have "\<exists>mr ob x0. prepare test_lib retry_client None ''GET'' ''http://h/'' None None empty_store
          = Inr (mr, ob, x0)"
    by (simp add: prepare_def pre_send_def entry_def descriptor_def Let_def resolveURL_def test_lib_def merge_headers_def make_map_def
        range_assign_def run_BeforeRequest_def marshal_body_def retry_client_def SetBackoff_def
        SetMaxRetries_def test_client_def)
  then obtain mr ob x0 where
    pr: "prepare test_lib retry_client None ''GET'' ''http://h/'' None None empty_store = Inr (mr, ob, x0)"
    by blast
  have nr: "NewRequest_check test_lib (req_Context mr) (req_Method mr) (req_URL mr) = None"
    by (simp add: test_lib_def)
  have cl: "client retry_client = Some refuse"
    by (simp add: retry_client_def SetBackoff_def SetMaxRetries_def test_client_def)
  have fails: "\<forall>s' req. snd (fst (refuse s' req)) \<noteq> None"
    by (simp add: refuse_def)
  have mx: "maxRetries retry_client = 2" and bo: "backoff retry_client = 10"
    by (simp_all add: retry_client_def SetBackoff_def SetMaxRetries_def test_client_def)
  have z: "maxRetries (test_client refuse) = 0"
    by (simp add: test_client_def)
  have up: "[0..<3] = [0, 1, 2]" by (simp add: upt_rec)
  note a = DoRequest_failing_transport[of test_lib retry_client None "''GET''" "''http://h/''" None None
      empty_store None, THEN conjunct1, rule_format, of mr ob x0 refuse]
  note b = DoRequest_failing_transport[of test_lib "test_client refuse" None "''GET''" "''http://h/''" None None
      empty_store None, THEN conjunct2, rule_format, OF z]
  from a pr nr cl fails mx bo b z up show ?thesis
    by simp
qed


text \<open>
  Four inputs at which C1 as first stated fails, each with a transport that always
  fails. At the largest \<open>int\<close> the counter wraps to a negative value after attempt
  \<open>2^63 - 1\<close>, the loop condition still holds, and the shift of the next backoff panics,
  so no error is returned. With a method that \<open>http.NewRequestWithContext\<close> rejects and
  two retries, the call returns \<open>failed to create request\<close> from inside the loop without
  any transport call. With two retries and the backoff \<open>- 2^62\<close>, the third sleep is given
  \<open>0\<close>, the wrapped product, and not \<open>backoff * 2^2 = - 2^64\<close>. With a URL that does not
  parse and two retries, the call returns before the loop, without any transport call.
\<close>

theorem DoRequest_max_retries_counterexample:
  "0 \<le> sint (maxRetries max_client) \<and>
   fst (DoRequest test_lib max_client None ''GET'' ''http://h/'' None None None empty_store) = Panic \<and>
   0 \<le> sint (maxRetries retry_client) \<and>
   fst (DoRequest strict_lib retry_client None ''BAD METHOD'' ''http://h/'' None None None empty_store)
     = Return None (Some (CreateRequestFailed (Err ''invalid method''))) \<and>
   transport_calls (trace (snd
     (DoRequest strict_lib retry_client None ''BAD METHOD'' ''http://h/'' None None None empty_store)))
     = [] \<and>
   io_steps (trace (snd
     (DoRequest test_lib negative_backoff_client None ''GET'' ''http://h/'' None None None empty_store)))
     = [Attempt, Sleep (- 0x4000000000000000), Attempt, Sleep (- 0x8000000000000000),
        Attempt, Sleep 0] \<and>
   sint (backoff negative_backoff_client) * 2 ^ 2 = - (2 ^ 64) \<and>
   fst (DoRequest test_lib retry_client None ''GET'' ''http://h/a b'' None None None empty_store)
     = Return None (Some (InvalidRequestURL (Err ''invalid character in URL''))) \<and>
   transport_calls (trace (snd
     (DoRequest test_lib retry_client None ''GET'' ''http://h/a b'' None None None empty_store))) = []"
proof -
  have p: "\<exists>mr ob x. prepare test_lib max_client None ''GET'' ''http://h/'' None None empty_store = Inr (mr, ob, x)"
    by (simp add: prepare_def pre_send_def entry_def descriptor_def Let_def resolveURL_def test_lib_def merge_headers_def make_map_def
        range_assign_def run_BeforeRequest_def marshal_body_def max_client_def SetMaxRetries_def test_client_def)
  then obtain mr ob x where pr: "prepare test_lib max_client None ''GET'' ''http://h/'' None None empty_store = Inr (mr, ob, x)"
    by blast
  have "fst (retry_loop test_lib max_client mr ob None x) = Panic"
    by (rule retry_loop_max_panics[where d = refuse])
       (simp_all add: test_lib_def max_client_def SetMaxRetries_def test_client_def refuse_def)
  moreover have "fst (DoRequest test_lib max_client None ''GET'' ''http://h/'' None None None empty_store)
       = fst (retry_loop test_lib max_client mr ob None x)"
    by (simp add: DoRequest_def pr split_beta)
  moreover have "0 \<le> sint (maxRetries max_client)"
    by (simp add: max_client_def SetMaxRetries_def test_client_def max_int_def)
  ultimately have one: "0 \<le> sint (maxRetries max_client) \<and>
    fst (DoRequest test_lib max_client None ''GET'' ''http://h/'' None None None empty_store) = Panic"
    by simp
  have two: "0 \<le> sint (maxRetries retry_client) \<and>
    fst (DoRequest strict_lib retry_client None ''BAD METHOD'' ''http://h/'' None None None empty_store)
     = Return None (Some (CreateRequestFailed (Err ''invalid method''))) \<and>
    transport_calls (trace (snd
     (DoRequest strict_lib retry_client None ''BAD METHOD'' ''http://h/'' None None None empty_store)))
     = []"
    by (simp add: run_defs retry_loop.simps strict_lib_def retry_client_def SetBackoff_def
        SetMaxRetries_def transport_calls_def)
  have three: "io_steps (trace (snd
     (DoRequest test_lib negative_backoff_client None ''GET'' ''http://h/'' None None None empty_store)))
     = [Attempt, Sleep (- 0x4000000000000000), Attempt, Sleep (- 0x8000000000000000),
        Attempt, Sleep 0] \<and>
   sint (backoff negative_backoff_client) * 2 ^ 2 = - (2 ^ 64)"
    by (simp add: run_defs retry_loop.simps negative_backoff_client_def SetBackoff_def
        SetMaxRetries_def)
  have four: "fst (DoRequest test_lib retry_client None ''GET'' ''http://h/a b'' None None None empty_store)
     = Return None (Some (InvalidRequestURL (Err ''invalid character in URL''))) \<and>
   transport_calls (trace (snd
     (DoRequest test_lib retry_client None ''GET'' ''http://h/a b'' None None None empty_store))) = []"
    by (simp add: run_defs retry_loop.simps retry_client_def SetBackoff_def
        SetMaxRetries_def transport_calls_def)
  from one two three four show ?thesis by simp
qed

subsection \<open>Non-2xx responses\<close>

text \<open>
  C2. A response with status 500 and body \<open>oops\<close>, no hooks, no retries: the attempt is a
  retryable failure and the call ends with \<open>request failed after 1 attempts\<close>, but the
  HTTP status error it wraps carries the status code and an empty body. Line 169 reads
  \<open>resp.Body\<close> a second time, after line 148 has drained it, instead of using \<open>rawBody\<close>.
\<close>

theorem DoRequest_status_error_body:
  "fst (DoRequest test_lib (test_client (reply 500 (Reader ''oops'' None)))
          None ''GET'' ''http://h/'' None None None empty_store)
     = Return (Some 1) (Some (RequestFailedAfter 1 (Some (HTTPStatus 500 [])))) \<and>
   io_steps (trace (snd (DoRequest test_lib (test_client (reply 500 (Reader ''oops'' None)))
          None ''GET'' ''http://h/'' None None None empty_store)))
     = [Attempt, Sleep 0]"
  by (simp add: run_defs retry_loop.simps)

subsection \<open>The pre-send hook\<close>

text \<open>
  C3. When the request URL resolves, the pre-send hook is set and it returns an error,
  \<open>DoRequest\<close> returns that error wrapped as \<open>before request hook failed\<close> with a nil
  response, and the transport is not invoked. Whenever the URL resolves and the hook is
  set, the hook is called exactly once in the whole call, whatever the number of attempts
  (a call whose URL does not resolve returns before the hook).
\<close>

theorem DoRequest_BeforeRequest:
  "(\<forall>u hdr s1 hook e mr' s2.
      resolveURL L c rawURL = Inr u \<and> merge_headers c hdrs s = (hdr, s1) \<and>
      BeforeRequest c = Some hook \<and>
      hook s1 (descriptor c ctx method u hdr body) = (Some e, mr', s2) \<longrightarrow>
      (\<exists>x. DoRequest L c ctx method rawURL body out hdrs s
              = (Return None (Some (BeforeRequestHookFailed e)), x) \<and>
           transport_calls (trace x) = [] \<and>
           filter (\<lambda>ev. ev = CallBeforeRequest) (trace x) = [CallBeforeRequest])) \<and>
   (\<forall>u hook.
      resolveURL L c rawURL = Inr u \<and> BeforeRequest c = Some hook \<longrightarrow>
      filter (\<lambda>ev. ev = CallBeforeRequest)
        (trace (snd (DoRequest L c ctx method rawURL body out hdrs s))) = [CallBeforeRequest])"
proof (intro conjI allI impI)
  fix u hdr s1 hook e mr' s2
  assume h: "resolveURL L c rawURL = Inr u \<and> merge_headers c hdrs s = (hdr, s1) \<and>
      BeforeRequest c = Some hook \<and>
      hook s1 (descriptor c ctx method u hdr body) = (Some e, mr', s2)"
  let ?x = "(entry ctx s)\<lparr>heap := s2, trace := [CallBeforeRequest]\<rparr>"
  from h have "pre_send L c ctx method rawURL body hdrs s
                 = Inl (Return None (Some (BeforeRequestHookFailed e)), ?x)"
    by (simp add: pre_send_def run_BeforeRequest_def entry_def)
  from DoRequest_early[OF this, of out]
  show "\<exists>x. DoRequest L c ctx method rawURL body out hdrs s
              = (Return None (Some (BeforeRequestHookFailed e)), x) \<and>
           transport_calls (trace x) = [] \<and>
           filter (\<lambda>ev. ev = CallBeforeRequest) (trace x) = [CallBeforeRequest]"
    by (simp add: transport_calls_run_deferred filter_run_deferred) (simp add: transport_calls_def)
next
  fix u hook
  assume h: "resolveURL L c rawURL = Inr u \<and> BeforeRequest c = Some hook"
  let ?P = "\<lambda>ev. ev = CallBeforeRequest"
  have P: "\<And>b ev. attempt_event b ev \<Longrightarrow> \<not> ?P ev" "\<not> ?P CallCancel" "\<And>r. \<not> ?P (CallClose r)"
    by auto
  have ev: "pre_send_events c = [CallBeforeRequest]"
    using h by (simp add: pre_send_events_def)
  show "filter ?P (trace (snd (DoRequest L c ctx method rawURL body out hdrs s))) = [CallBeforeRequest]"
  proof (cases "pre_send L c ctx method rawURL body hdrs s")
    case (Inl early)
    obtain r x where e: "early = (r, x)" by (cases early)
    from pre_send_Inl[OF Inl[unfolded e]] h ev have "trace x = [CallBeforeRequest]" by simp
    then show ?thesis
      by (simp only: filter_DoRequest[of ?P, OF P] Inl e) simp
  next
    case (Inr t)
    obtain mr x2 where t: "t = (mr, x2)" by (cases t)
    from pre_send_Inr[OF Inr[unfolded t]] ev have "trace x2 = [CallBeforeRequest]" by simp
    then show ?thesis
      by (simp only: filter_DoRequest[of ?P, OF P] Inr t) (simp split: option.splits)
  qed
qed

theorem DoRequest_BeforeRequest_witness:
  "resolveURL test_lib denied_client ''http://h/'' = Inr ''http://h/'' \<and>
   BeforeRequest denied_client = Some deny \<and> maxRetries denied_client = 3 \<and>
   (\<exists>x. DoRequest test_lib denied_client None ''GET'' ''http://h/'' None None None empty_store
           = (Return None (Some (BeforeRequestHookFailed (Err ''denied''))), x) \<and>
        transport_calls (trace x) = [] \<and>
        filter (\<lambda>ev. ev = CallBeforeRequest) (trace x) = [CallBeforeRequest]) \<and>
   filter (\<lambda>ev. ev = CallBeforeRequest)
     (trace (snd (DoRequest test_lib denied_client None ''GET'' ''http://h/'' None None None empty_store)))
     = [CallBeforeRequest]"
proof -
  have r: "resolveURL test_lib denied_client ''http://h/'' = Inr ''http://h/''"
    by (simp add: resolveURL_def test_lib_def denied_client_def test_client_def)
  have b: "BeforeRequest denied_client = Some deny" and m: "maxRetries denied_client = 3"
    by (simp_all add: denied_client_def test_client_def)
  obtain hdr s1 where mh: "merge_headers denied_client None empty_store = (hdr, s1)"
    by (metis prod.exhaust)
  have d: "deny s1 (descriptor denied_client None ''GET'' ''http://h/'' hdr None)
           = (Some (Err ''denied''), descriptor denied_client None ''GET'' ''http://h/'' hdr None, s1)"
    by (simp add: deny_def)
  note t = DoRequest_BeforeRequest[of test_lib denied_client "''http://h/''" None empty_store
      None "''GET''" None None]
  from t[THEN conjunct1, rule_format, OF conjI[OF r conjI[OF mh conjI[OF b d]]]]
    t[THEN conjunct2, rule_format, OF conjI[OF r b]] r b m
  show ?thesis by simp
qed

subsection \<open>Serializing the body\<close>

text \<open>
  C7 (amended). Let a call get past the pre-send hook (the URL resolves and the hook, if
  set, returns no error) with a descriptor whose body, as the hook leaves it, is not nil.
  If the body serializes, \<open>json.Marshal\<close> is called exactly once, right after the pre-send
  stage and before every transport call, and every transport call of the call is given
  these same bytes as its body: each attempt that gets to the transport (the request can be
  built and the client has a transport) hands it one request with these bytes, and when
  \<open>maxRetries\<close> is not negative at least one attempt does. If serialization fails, the call
  returns the error wrapped as \<open>failed to marshal body\<close> without any transport call.
\<close>

theorem DoRequest_serializes_once:
  "\<forall>mr x2 b.
      pre_send L c ctx method rawURL body hdrs s = Inr (mr, x2) \<and> req_Body mr = Some b \<longrightarrow>
      (\<forall>bs. json_Marshal L b = Inr bs \<longrightarrow>
         (\<exists>evs. trace (snd (DoRequest L c ctx method rawURL body out hdrs s))
                  = pre_send_events c @ [CallMarshal] @ evs \<and>
                CallMarshal \<notin> set evs \<and> CallBeforeRequest \<notin> set evs \<and>
                (\<forall>req p e. CallDo req p e \<in> set evs \<longrightarrow> hreq_Body req = Some bs) \<and>
                (\<forall>d. client c = Some d \<and>
                     NewRequest_check L (req_Context mr) (req_Method mr) (req_URL mr) = None \<and>
                     0 \<le> sint (maxRetries c) \<longrightarrow> sent_bodies evs \<noteq> [])) \<and>
         (\<forall>d x. client c = Some d \<and>
                NewRequest_check L (req_Context mr) (req_Method mr) (req_URL mr) = None \<longrightarrow>
                sent_bodies (trace (flow_state (attempt_body L c mr bs out x)))
                  = sent_bodies (trace x) @ [Some bs])) \<and>
      (\<forall>e. json_Marshal L b = Inl e \<longrightarrow>
         (\<exists>x. DoRequest L c ctx method rawURL body out hdrs s
                 = (Return None (Some (MarshalBodyFailed e)), x) \<and>
              transport_calls (trace x) = [] \<and>
              filter (\<lambda>ev. ev = CallMarshal) (trace x) = [CallMarshal]))"
proof (intro allI impI conjI)
  fix mr x2 b bs
  assume h: "pre_send L c ctx method rawURL body hdrs s = Inr (mr, x2) \<and> req_Body mr = Some b"
    and ok: "json_Marshal L b = Inr bs"
  then have ps: "pre_send L c ctx method rawURL body hdrs s = Inr (mr, x2)"
    and bd: "req_Body mr = Some b" by simp_all
  let ?x3 = "x2\<lparr>trace := trace x2 @ [CallMarshal]\<rparr>"
  have mb: "marshal_body L mr x2 = Inr (bs, ?x3)"
    using bd ok by (simp add: marshal_body_def Let_def)
  let ?y = "snd (retry_loop L c mr bs out ?x3)"
  from extends_retry_loop[of mr bs ?x3 L c out] obtain evs1
    where t1: "trace ?y = trace ?x3 @ evs1" and a1: "list_all (attempt_event (sent_body mr bs)) evs1"
    by (auto simp: extends_def)
  from run_deferred_trace[of ?y] obtain evs2
    where t2: "trace (run_deferred ?y) = trace ?y @ evs2"
      and a2: "\<forall>ev\<in>set evs2. ev = CallCancel \<or> (\<exists>r. ev = CallClose r)" by blast
  have sb: "sent_body mr bs = Some bs" using bd by (simp add: sent_body_def)
  have e1: "ev \<noteq> CallMarshal \<and> ev \<noteq> CallBeforeRequest \<and>
            (\<forall>req p e. ev = CallDo req p e \<longrightarrow> hreq_Body req = Some bs)"
    if "ev \<in> set evs1" for ev
  proof -
    from a1 that have "attempt_event (Some bs) ev" by (simp add: list_all_iff sb)
    then show ?thesis by (cases ev) auto
  qed
  have e2: "ev \<noteq> CallMarshal \<and> ev \<noteq> CallBeforeRequest \<and>
            (\<forall>req p e. ev = CallDo req p e \<longrightarrow> hreq_Body req = Some bs)"
    if "ev \<in> set evs2" for ev
    using a2 that by auto
  have tr: "trace (snd (DoRequest L c ctx method rawURL body out hdrs s))
            = pre_send_events c @ [CallMarshal] @ (evs1 @ evs2)"
    using DoRequest_loop[OF ps mb, of out] t1 t2 pre_send_Inr[OF ps] by simp
  have ne: "sent_bodies (evs1 @ evs2) \<noteq> []"
    if c: "client c = Some d \<and>
           NewRequest_check L (req_Context mr) (req_Method mr) (req_URL mr) = None \<and>
           0 \<le> sint (maxRetries c)" for d
  proof -
    have a0: "sint (attempt ?x3) \<le> sint (maxRetries c)"
      using pre_send_Inr[OF ps] c by simp
    from retry_loop_first_attempt[OF a0, of mr bs L out] obtain n
      where "extends (sent_body mr bs) n (flow_state (attempt_body L c mr bs out ?x3)) ?y" by blast
    from sent_bodies_extends[OF this] obtain ys
      where "sent_bodies (trace ?y) = sent_bodies (trace (flow_state (attempt_body L c mr bs out ?x3))) @ ys"
      by blast
    moreover from c have "sent_bodies (trace (flow_state (attempt_body L c mr bs out ?x3)))
                    = sent_bodies (trace ?x3) @ [sent_body mr bs]"
      using attempt_body_sends[of L mr c d bs out ?x3] by simp
    ultimately have "sent_bodies (trace ?x3) @ sent_bodies evs1
                       = sent_bodies (trace ?x3) @ [sent_body mr bs] @ ys"
      using t1 by (simp add: sent_bodies_append)
    then have "sent_bodies evs1 = [sent_body mr bs] @ ys" by simp
    then show ?thesis by (simp add: sent_bodies_append)
  qed
  show "\<exists>evs. trace (snd (DoRequest L c ctx method rawURL body out hdrs s))
                  = pre_send_events c @ [CallMarshal] @ evs \<and>
                CallMarshal \<notin> set evs \<and> CallBeforeRequest \<notin> set evs \<and>
                (\<forall>req p e. CallDo req p e \<in> set evs \<longrightarrow> hreq_Body req = Some bs) \<and>
                (\<forall>d. client c = Some d \<and>
                     NewRequest_check L (req_Context mr) (req_Method mr) (req_URL mr) = None \<and>
                     0 \<le> sint (maxRetries c) \<longrightarrow> sent_bodies evs \<noteq> [])"
    using tr e1 e2 ne by (intro exI[of _ "evs1 @ evs2"]) auto
next
  fix mr x2 b bs d x
  assume h: "pre_send L c ctx method rawURL body hdrs s = Inr (mr, x2) \<and> req_Body mr = Some b"
    and c: "client c = Some d \<and>
            NewRequest_check L (req_Context mr) (req_Method mr) (req_URL mr) = None"
  then have "sent_body mr bs = Some bs" by (simp add: sent_body_def)
  then show "sent_bodies (trace (flow_state (attempt_body L c mr bs out x)))
               = sent_bodies (trace x) @ [Some bs]"
    using attempt_body_sends[of L mr c d bs out x] c by simp
next
  fix mr x2 b e
  assume h: "pre_send L c ctx method rawURL body hdrs s = Inr (mr, x2) \<and> req_Body mr = Some b"
    and bad: "json_Marshal L b = Inl e"
  then have ps: "pre_send L c ctx method rawURL body hdrs s = Inr (mr, x2)"
    and bd: "req_Body mr = Some b" by simp_all
  let ?x3 = "x2\<lparr>trace := trace x2 @ [CallMarshal]\<rparr>"
  have mb: "marshal_body L mr x2 = Inl (Return None (Some (MarshalBodyFailed e)), ?x3)"
    using bd bad by (simp add: marshal_body_def Let_def)
  have "trace x2 = pre_send_events c" using pre_send_Inr[OF ps] by simp
  then have "transport_calls (trace ?x3) = []" "filter (\<lambda>ev. ev = CallMarshal) (trace ?x3) = [CallMarshal]"
    by (auto simp: pre_send_events_def transport_calls_def split: option.splits)
  then show "\<exists>x. DoRequest L c ctx method rawURL body out hdrs s
                 = (Return None (Some (MarshalBodyFailed e)), x) \<and>
              transport_calls (trace x) = [] \<and>
              filter (\<lambda>ev. ev = CallMarshal) (trace x) = [CallMarshal]"
    using DoRequest_marshal_failed[OF ps mb, of out]
    by (simp add: transport_calls_run_deferred filter_run_deferred)
qed

theorem DoRequest_serializes_once_witness:
  "(\<exists>evs. trace (snd (DoRequest test_lib retry_client None ''POST'' ''http://h/'' (Some ''42'')
                        None None empty_store))
            = [CallMarshal] @ evs \<and>
          CallMarshal \<notin> set evs \<and> CallBeforeRequest \<notin> set evs \<and>
          (\<forall>req p e. CallDo req p e \<in> set evs \<longrightarrow> hreq_Body req = Some ''42'') \<and>
          sent_bodies evs \<noteq> []) \<and>
   sent_bodies (trace (flow_state (attempt_body test_lib retry_client
       (descriptor retry_client None ''POST'' ''http://h/'' 0 (Some ''42'')) ''42'' None get_state)))
     = [Some ''42''] \<and>
   sent_bodies (trace (snd (DoRequest test_lib retry_client None ''POST'' ''http://h/'' (Some ''42'')
                        None None empty_store)))
     = [Some ''42'', Some ''42'', Some ''42''] \<and>
   (\<exists>x. DoRequest test_lib retry_client None ''POST'' ''http://h/'' (Some ''chan'') None None empty_store
           = (Return None (Some (MarshalBodyFailed (Err ''unsupported type''))), x) \<and>
        transport_calls (trace x) = [] \<and>
        filter (\<lambda>ev. ev = CallMarshal) (trace x) = [CallMarshal])"
proof -
  let ?mr = "descriptor retry_client None ''POST'' ''http://h/'' 0 (Some ''42'')"
  have "\<exists>x2. pre_send test_lib retry_client None ''POST'' ''http://h/'' (Some b) None empty_store
          = Inr (descriptor retry_client None ''POST'' ''http://h/'' 0 (Some b), x2)" for b
    by (simp add: pre_send_def resolveURL_def test_lib_def merge_headers_def make_map_def
        range_assign_def run_BeforeRequest_def retry_client_def SetBackoff_def SetMaxRetries_def
        test_client_def empty_store_def)
  then obtain x1 x2 where
    p1: "pre_send test_lib retry_client None ''POST'' ''http://h/'' (Some ''42'') None empty_store
          = Inr (?mr, x1)" and
    p2: "pre_send test_lib retry_client None ''POST'' ''http://h/'' (Some ''chan'') None empty_store
          = Inr (descriptor retry_client None ''POST'' ''http://h/'' 0 (Some ''chan''), x2)"
    by metis
  have b1: "req_Body ?mr = Some ''42''"
    and b2: "req_Body (descriptor retry_client None ''POST'' ''http://h/'' 0 (Some ''chan'')) = Some ''chan''"
    by (simp_all add: descriptor_def)
  have m1: "json_Marshal test_lib ''42'' = Inr ''42''"
    and m2: "json_Marshal test_lib ''chan'' = Inl (Err ''unsupported type'')"
    by (simp_all add: test_lib_def)
  have ev: "pre_send_events retry_client = []"
    by (simp add: pre_send_events_def retry_client_def SetBackoff_def SetMaxRetries_def test_client_def)
  have cl: "client retry_client = Some refuse \<and>
            NewRequest_check test_lib (req_Context ?mr) (req_Method ?mr) (req_URL ?mr) = None"
    and mx: "0 \<le> sint (maxRetries retry_client)"
    by (simp_all add: retry_client_def SetBackoff_def SetMaxRetries_def test_client_def test_lib_def)
  have t0: "sent_bodies (trace get_state) = []"
    by (simp add: run_defs)
  note t = DoRequest_serializes_once[rule_format, OF conjI[OF p1 b1], THEN conjunct1, rule_format, OF m1,
      of None]
  from t[THEN conjunct1] cl mx ev
  have w1: "\<exists>evs. trace (snd (DoRequest test_lib retry_client None ''POST'' ''http://h/'' (Some ''42'')
                        None None empty_store))
            = [CallMarshal] @ evs \<and>
          CallMarshal \<notin> set evs \<and> CallBeforeRequest \<notin> set evs \<and>
          (\<forall>req p e. CallDo req p e \<in> set evs \<longrightarrow> hreq_Body req = Some ''42'') \<and>
          sent_bodies evs \<noteq> []"
    by auto
  from t[THEN conjunct2, rule_format, OF cl, of get_state] t0
  have w2: "sent_bodies (trace (flow_state (attempt_body test_lib retry_client ?mr ''42'' None get_state)))
     = [Some ''42'']"
    by simp
  have w3: "sent_bodies (trace (snd (DoRequest test_lib retry_client None ''POST'' ''http://h/'' (Some ''42'')
                        None None empty_store)))
     = [Some ''42'', Some ''42'', Some ''42'']"
    by (simp add: run_defs retry_loop.simps retry_client_def SetBackoff_def SetMaxRetries_def)
  note w4 = DoRequest_serializes_once[rule_format, OF conjI[OF p2 b2], THEN conjunct2, rule_format, OF m2,
      of None]
  from w1 w2 w3 w4 show ?thesis by simp
qed

text \<open>
  Four calls with the body \<open>42\<close>, for which C7 as first stated fails. When the pre-send
  hook sets the descriptor's body to nil, \<open>json.Marshal\<close> is not called and the request has
  no body. When the pre-send hook fails, the call returns its error and \<open>json.Marshal\<close> is not
  called. When \<open>http.NewRequestWithContext\<close> rejects the method, the attempt returns
  \<open>failed to create request\<close> and nothing is sent. When the client has no transport, the
  attempt panics and nothing is sent.
\<close>

theorem DoRequest_body_cleared_counterexample:
  "BeforeRequest clearing_client = Some clear_body \<and>
   filter (\<lambda>ev. ev = CallMarshal) (trace (snd
     (DoRequest test_lib clearing_client None ''POST'' ''http://h/'' (Some ''42'') None None empty_store)))
     = [] \<and>
   sent_bodies (trace (snd
     (DoRequest test_lib clearing_client None ''POST'' ''http://h/'' (Some ''42'') None None empty_store)))
     = [None] \<and>
   fst (DoRequest test_lib denied_client None ''POST'' ''http://h/'' (Some ''42'') None None empty_store)
     = Return None (Some (BeforeRequestHookFailed (Err ''denied''))) \<and>
   filter (\<lambda>ev. ev = CallMarshal) (trace (snd
     (DoRequest test_lib denied_client None ''POST'' ''http://h/'' (Some ''42'') None None empty_store)))
     = [] \<and>
   0 \<le> sint (maxRetries retry_client) \<and>
   fst (DoRequest strict_lib retry_client None ''BAD METHOD'' ''http://h/'' (Some ''42'') None None
          empty_store)
     = Return None (Some (CreateRequestFailed (Err ''invalid method''))) \<and>
   sent_bodies (trace (snd
     (DoRequest strict_lib retry_client None ''BAD METHOD'' ''http://h/'' (Some ''42'') None None
        empty_store)))
     = [] \<and>
   fst (DoRequest test_lib bare_client None ''POST'' ''http://h/'' (Some ''42'') None None empty_store)
     = Panic \<and>
   sent_bodies (trace (snd
     (DoRequest test_lib bare_client None ''POST'' ''http://h/'' (Some ''42'') None None empty_store)))
     = []"
  by (simp add: run_defs retry_loop.simps clearing_client_def clear_body_def denied_client_def deny_def
      strict_lib_def retry_client_def SetBackoff_def SetMaxRetries_def bare_client_def)

subsection \<open>A negative retry count\<close>

text \<open>
  C9. Let \<open>maxRetries\<close> be set to a negative \<open>n\<close> with \<open>SetMaxRetries\<close>, let the URL
  resolve, let the body be nil, and let the pre-send hook, if there is one, return no error
  and leave the body nil. Then \<open>DoRequest\<close> makes no transport call and returns a nil
  response with the error \<open>request failed after n+1 attempts\<close> that wraps a nil error.
\<close>

theorem DoRequest_negative_maxRetries:
  assumes neg: "sint n < 0"
    and url: "resolveURL L c rawURL = Inr u"
    and mh: "merge_headers c hdrs s = (hdr, s1)"
    and hk: "BeforeRequest c = None \<or>
             (\<exists>hook mr' s2. BeforeRequest c = Some hook \<and>
                hook s1 (descriptor c ctx method u hdr None) = (None, mr', s2) \<and>
                req_Body mr' = None)"
  shows "\<exists>x. DoRequest L (SetMaxRetries n c) ctx method rawURL None out hdrs s
               = (Return None (Some (RequestFailedAfter (n + 1) None)), x) \<and>
             transport_calls (trace x) = []"
proof -
  let ?c = "SetMaxRetries n c"
  have url': "resolveURL L ?c rawURL = Inr u"
    using url by (auto simp: resolveURL_def SetMaxRetries_def split: sum.splits if_splits)
  have mh': "merge_headers ?c hdrs s = (hdr, s1)"
    using mh by (simp add: merge_headers_def SetMaxRetries_def split: prod.splits)
  have d': "descriptor ?c ctx method u hdr None = descriptor c ctx method u hdr None"
    by (simp add: descriptor_def SetMaxRetries_def split: option.splits)
  have b': "BeforeRequest ?c = BeforeRequest c" and m': "maxRetries ?c = n"
    by (simp_all add: SetMaxRetries_def)
  from hk have "\<exists>mr x2. pre_send L ?c ctx method rawURL None hdrs s = Inr (mr, x2) \<and>
      req_Body mr = None \<and> resp x2 = None \<and> lastErr x2 = None \<and> attempt x2 = 0 \<and>
      transport_calls (trace x2) = []"
  proof
    assume "BeforeRequest c = None"
    then show ?thesis
      by (simp add: pre_send_def url' mh' run_BeforeRequest_def b' entry_def transport_calls_def)
         (simp add: descriptor_def)
  next
    assume "\<exists>hook mr' s2. BeforeRequest c = Some hook \<and>
                hook s1 (descriptor c ctx method u hdr None) = (None, mr', s2) \<and>
                req_Body mr' = None"
    then show ?thesis
      by (auto simp: pre_send_def url' mh' d' run_BeforeRequest_def b' entry_def transport_calls_def)
  qed
  then obtain mr x2 where ps: "pre_send L ?c ctx method rawURL None hdrs s = Inr (mr, x2)"
    and nb: "req_Body mr = None" and r: "resp x2 = None" and le: "lastErr x2 = None"
    and a: "attempt x2 = 0" and tc: "transport_calls (trace x2) = []"
    by blast
  have mb: "marshal_body L mr x2 = Inr ([], x2)"
    using nb by (simp add: marshal_body_def)
  have "retry_loop L ?c mr [] out x2
          = (Return None (Some (RequestFailedAfter (n + 1) None)), x2)"
    using neg a r le m' by (subst retry_loop.simps) simp
  with DoRequest_loop[OF ps mb, of out] tc show ?thesis
    by (simp add: transport_calls_run_deferred)
qed

theorem DoRequest_negative_maxRetries_witness:
  "sint (- 3 :: go_int) < 0 \<and> resolveURL test_lib ok_client ''http://h/'' = Inr ''http://h/'' \<and>
   BeforeRequest ok_client = None \<and>
   (\<exists>x. DoRequest test_lib (SetMaxRetries (- 3) ok_client) None ''GET'' ''http://h/'' None None None
           empty_store
           = (Return None (Some (RequestFailedAfter (- 2) None)), x) \<and>
        transport_calls (trace x) = [])"
proof -
  have neg: "sint (- 3 :: go_int) < 0" by simp
  have url: "resolveURL test_lib ok_client ''http://h/'' = Inr ''http://h/''"
    by (simp add: resolveURL_def test_lib_def ok_client_def test_client_def)
  obtain hdr s1 where mh: "merge_headers ok_client None empty_store = (hdr, s1)"
    by (metis prod.exhaust)
  have b: "BeforeRequest ok_client = None"
    by (simp add: ok_client_def test_client_def)
  from DoRequest_negative_maxRetries[OF neg url mh disjI1[OF b], of None "''GET''" None] neg url b
  show ?thesis by simp
qed

subsection \<open>One attempt with a response\<close>

lemma retry_loop_Exit:
  "sint (attempt x) \<le> sint (maxRetries c) \<Longrightarrow> attempt_body L c mr ob out x = Exit res x' \<Longrightarrow>
   retry_loop L c mr ob out x = (res, x')"
  by (subst retry_loop.simps) simp

lemma send_Inr:
  assumes "send L c mr ob x0 = Inr x"
  shows "filter is_AfterResponse (trace x) = filter is_AfterResponse (trace x0)"
    and "\<exists>req. transport_calls (trace x) = transport_calls (trace x0) @ [CallDo req (resp x) None]"
    and "attempt_body L c mr ob out x0 = on_response L c out x"
  using assms
  by (auto simp: send_def attempt_body_def logf_def Let_def transport_calls_def
      split: sum.splits option.splits prod.splits)

lemma read_body_data:
  assumes "http_Body (st_resp (heap x) r) = Some (Reader bs None)"
    and "read_body r x = Inr (a, x2)"
  shows "st_bytes (heap x2) a = bs" and "trace x2 = trace x"
  using assms by (auto simp: read_body_def new_bytes_def Let_def split: option.splits prod.splits)

lemma filter_backoff_sleep:
  "filter is_AfterResponse (trace (flow_state (backoff_sleep c x))) = filter is_AfterResponse (trace x)"
  by (simp add: backoff_sleep_def)

lemma filter_decode:
  "filter is_AfterResponse (trace (flow_state (decode L out r a x))) = filter is_AfterResponse (trace x)"
  by (simp add: decode_def Let_def split: option.splits out_target.splits prod.splits)

lemma filter_after_hook:
  "filter is_AfterResponse (trace (flow_state (after_hook L c out r a x))) = filter is_AfterResponse (trace x)"
  by (simp add: after_hook_def Let_def filter_backoff_sleep filter_decode
      split: option.splits prod.splits)

lemma call_AfterResponse_Some:
  assumes "AfterResponse c = Some hook" and "call_AfterResponse c r a x2 = (e, mr', x3)"
  shows "trace x3 = trace x2 @ [CallAfterResponse r]"
  using assms by (auto simp: call_AfterResponse_def split: prod.splits)

lemma prepare_get: "prepare test_lib (test_client d) None ''GET'' ''http://h/'' None None empty_store
       = Inr (get_request, [], get_state)"
  by (simp add: run_defs)

lemma attempt_success:
  assumes s: "send L c mr ob x0 = Inr x" and r: "resp x = Some r"
    and rb: "read_body r x = Inr (a, x2)"
    and ca: "call_AfterResponse c r a x2 = (None, mr', x3)"
    and body: "http_Body (st_resp (heap x3) r) \<noteq> None"
    and ok: "200 \<le> sint (http_StatusCode (st_resp (heap x3) r))"
            "sint (http_StatusCode (st_resp (heap x3) r)) < 300"
  shows "attempt_body L c mr ob out x0
           = decode L out r a (x3\<lparr>deferred := DeferClose r # deferred x3\<rparr>)"
proof -
  from body obtain rd where "http_Body (st_resp (heap x3) r) = Some rd" by auto
  then have "after_hook L c out r a x3 = decode L out r a (x3\<lparr>deferred := DeferClose r # deferred x3\<rparr>)"
    using ok by (simp add: after_hook_def Let_def)
  then show ?thesis
    by (simp add: send_Inr(3)[OF s] on_response_def r rb ca)
qed

lemma decode_string:
  "decode L (Some (StringPtr (Some q))) r a y
     = Exit (Return (Some r) None)
         (y\<lparr>heap := (heap y)\<lparr>st_strings := (st_strings (heap y))(q := st_bytes (heap y) a)\<rparr>\<rparr>)"
  by (simp add: decode_def)

lemma decode_other:
  assumes "json_Unmarshal L (st_bytes (heap y) a) (st_values (heap y) q) = (uerr, v)"
  shows "decode L (Some (OtherPtr q)) r a y
     = Exit (Return (Some r) (map_option DecodeResponseFailed uerr))
         (y\<lparr>heap := (heap y)\<lparr>st_values := (st_values (heap y))(q := v)\<rparr>,
            trace := trace y @ [CallUnmarshal]\<rparr>)"
  using assms by (cases uerr) (simp_all add: decode_def Let_def)

lemma call_AfterResponse_calls:
  "call_AfterResponse c r a x2 = (e, mr', x3) \<Longrightarrow>
   transport_calls (trace x3) = transport_calls (trace x2)"
  by (auto simp: call_AfterResponse_def transport_calls_def split: option.splits prod.splits)

lemma retry_loop_after_retries:
  "after_retries k L c mr ob out x0 = Some xk \<Longrightarrow>
   retry_loop L c mr ob out x0 = retry_loop L c mr ob out xk"
proof (induction k arbitrary: x0)
  case 0
  then show ?case by simp
next
  case (Suc k)
  from Suc.prems have le: "sint (attempt x0) \<le> sint (maxRetries c)"
    by (simp split: if_splits)
  from Suc.prems le obtain x' where c: "attempt_body L c mr ob out x0 = Continue x'"
    and a: "after_retries k L c mr ob out (x'\<lparr>attempt := attempt x' + 1\<rparr>) = Some xk"
    by (auto split: flow.splits)
  have "retry_loop L c mr ob out x0 = retry_loop L c mr ob out (x'\<lparr>attempt := attempt x' + 1\<rparr>)"
    using le c by (subst retry_loop.simps) simp
  with Suc.IH[OF a] show ?case by simp
qed

subsection \<open>The post-receive hook\<close>

text \<open>
  C4 (amended). On an attempt on which the transport returned a response without error
  and the body of the response was read to its end, a post-receive hook that is set is
  invoked exactly once, whatever the status code is. If the hook returns an error, the loop
  ends at once: \<open>DoRequest\<close> returns the response together with the error wrapped as
  \<open>after response hook failed\<close>, and no further attempt is made.
\<close>

theorem attempt_AfterResponse:
  assumes "send L c mr ob x0 = Inr x" and "resp x = Some r"
    and "read_body r x = Inr (a, x2)" and "AfterResponse c = Some hook"
  shows "filter is_AfterResponse (trace (flow_state (attempt_body L c mr ob out x0)))
           = filter is_AfterResponse (trace x0) @ [CallAfterResponse r] \<and>
         (\<forall>e mr' x3.
            call_AfterResponse c r a x2 = (Some e, mr', x3) \<and>
            sint (attempt x0) \<le> sint (maxRetries c) \<longrightarrow>
            retry_loop L c mr ob out x0
              = (Return (Some r) (Some (AfterResponseHookFailed e)), x3))"
proof (intro conjI allI impI)
  obtain herr mr' x3 where ca: "call_AfterResponse c r a x2 = (herr, mr', x3)"
    by (metis prod.exhaust)
  from call_AfterResponse_Some[OF assms(4) ca] read_body_trace(2)[OF assms(3)] send_Inr(1)[OF assms(1)]
  have f3: "filter is_AfterResponse (trace x3) = filter is_AfterResponse (trace x0) @ [CallAfterResponse r]"
    by simp
  have "filter is_AfterResponse (trace (flow_state (on_response L c out x)))
          = filter is_AfterResponse (trace x3)"
    by (cases herr) (simp_all add: on_response_def assms(2,3) ca filter_after_hook)
  with f3 show "filter is_AfterResponse (trace (flow_state (attempt_body L c mr ob out x0)))
           = filter is_AfterResponse (trace x0) @ [CallAfterResponse r]"
    by (simp add: send_Inr(3)[OF assms(1)])
next
  fix e mr' x3
  assume h: "call_AfterResponse c r a x2 = (Some e, mr', x3) \<and>
            sint (attempt x0) \<le> sint (maxRetries c)"
  then have "attempt_body L c mr ob out x0 = Exit (Return (Some r) (Some (AfterResponseHookFailed e))) x3"
    by (simp add: send_Inr(3)[OF assms(1)] on_response_def assms(2,3))
  with h show "retry_loop L c mr ob out x0 = (Return (Some r) (Some (AfterResponseHookFailed e)), x3)"
    by (simp add: retry_loop_Exit)
qed


theorem attempt_AfterResponse_witness:
  "sint (attempt get_state) \<le> sint (maxRetries rejecting_client) \<and>
   filter is_AfterResponse (trace (flow_state (attempt_body test_lib rejecting_client get_request []
        None get_state))) = [CallAfterResponse 1] \<and>
   fst (retry_loop test_lib rejecting_client get_request [] None get_state)
     = Return (Some 1) (Some (AfterResponseHookFailed (Err ''rate limited'')))"
proof -
  have "\<exists>x a x2 mr' x3.
          send test_lib rejecting_client get_request [] get_state = Inr x \<and> resp x = Some 1 \<and>
          read_body 1 x = Inr (a, x2) \<and>
          call_AfterResponse rejecting_client 1 a x2 = (Some (Err ''rate limited''), mr', x3)"
    by (simp add: run_defs)
  then obtain x a x2 mr' x3 where
    s: "send test_lib rejecting_client get_request [] get_state = Inr x" and r: "resp x = Some 1"
    and rb: "read_body 1 x = Inr (a, x2)"
    and ca: "call_AfterResponse rejecting_client 1 a x2 = (Some (Err ''rate limited''), mr', x3)"
    by blast
  have hk: "AfterResponse rejecting_client = Some reject"
    by (simp add: run_defs)
  have le: "sint (attempt get_state) \<le> sint (maxRetries rejecting_client)"
    by (simp add: run_defs)
  have t0: "trace get_state = []" by (simp add: run_defs)
  from attempt_AfterResponse[OF s r rb hk, of None, THEN conjunct1]
    attempt_AfterResponse[OF s r rb hk, of None, THEN conjunct2, rule_format, OF conjI[OF ca le]]
    le t0
  show ?thesis by simp
qed

text \<open>
  The hook is not invoked on an attempt whose response body cannot be read: the transport
  returns a response, reading its body fails, and the call returns before line 160.
\<close>

theorem AfterResponse_read_error_counterexample:
  "AfterResponse broken_body_client = Some observe \<and>
   fst (DoRequest test_lib broken_body_client None ''GET'' ''http://h/'' None None None empty_store)
     = Return (Some 1) (Some (ReadResponseBodyFailed (Err ''connection reset''))) \<and>
   transport_calls (trace (snd
     (DoRequest test_lib broken_body_client None ''GET'' ''http://h/'' None None None empty_store)))
     = [CallDo \<lparr>hreq_ctx = Some (WithTimeout 5000000000), hreq_Method = ''GET'',
                hreq_URL = ''http://h/'', hreq_Header = [], hreq_Body = None\<rparr> (Some 1) None] \<and>
   filter is_AfterResponse (trace (snd
     (DoRequest test_lib broken_body_client None ''GET'' ''http://h/'' None None None empty_store)))
     = []"
  by (simp add: run_defs retry_loop.simps transport_calls_def)

subsection \<open>Decoding\<close>

text \<open>
  C8 (amended). On a successful (2xx) response with a non-nil output target, when the
  response body was read without error and the post-receive hook, if set, returned no error,
  left the \<open>Body\<close> of the response set and did not write into the bytes read from the body: if
  the target is a string pointer, it receives exactly the raw response body bytes as text;
  otherwise the raw body bytes are JSON-unmarshalled into the target, and an unmarshal
  failure is returned immediately as a fatal decode error without any retry.

  In the theorem the call gets to the loop with the descriptor \<open>mr\<close> and the bytes \<open>ob\<close>, its
  first \<open>k\<close> attempts end with \<open>continue\<close>, and on the next one the transport returns the
  response \<open>r\<close>, whose body delivers the bytes \<open>bs\<close>; the status code is the one the code
  tests, after the hook. Then \<open>DoRequest\<close> returns \<open>r\<close>: without error and with \<open>bs\<close> in the
  string or the unmarshalled value in the target, or with the unmarshal error wrapped as
  \<open>failed to decode response\<close> and no transport call after the one that returned \<open>r\<close>.
\<close>

theorem DoRequest_decodes:
  assumes pr: "prepare L c ctx method rawURL body hdrs s = Inr (mr, ob, x0)"
    and it: "after_retries k L c mr ob out x0 = Some xk"
    and loop: "sint (attempt xk) \<le> sint (maxRetries c)"
    and s: "send L c mr ob xk = Inr x" and r: "resp x = Some r"
    and bd: "http_Body (st_resp (heap x) r) = Some (Reader bs None)"
    and rb: "read_body r x = Inr (rawBody, x2)"
    and ca: "call_AfterResponse c r rawBody x2 = (None, mr', x3)"
    and keep: "st_bytes (heap x3) rawBody = st_bytes (heap x2) rawBody"
    and body: "http_Body (st_resp (heap x3) r) \<noteq> None"
    and ok: "200 \<le> sint (http_StatusCode (st_resp (heap x3) r))"
            "sint (http_StatusCode (st_resp (heap x3) r)) < 300"
  shows "(\<forall>q. out = Some (StringPtr (Some q)) \<longrightarrow>
            (\<exists>x'. DoRequest L c ctx method rawURL body out hdrs s = (Return (Some r) None, x') \<and>
                  st_strings (heap x') q = bs)) \<and>
         (\<forall>q v. out = Some (OtherPtr q) \<and> json_Unmarshal L bs (st_values (heap x3) q) = (None, v) \<longrightarrow>
            (\<exists>x'. DoRequest L c ctx method rawURL body out hdrs s = (Return (Some r) None, x') \<and>
                  st_values (heap x') q = v)) \<and>
         (\<forall>q e v. out = Some (OtherPtr q) \<and>
                  json_Unmarshal L bs (st_values (heap x3) q) = (Some e, v) \<longrightarrow>
            (\<exists>x'. DoRequest L c ctx method rawURL body out hdrs s
                     = (Return (Some r) (Some (DecodeResponseFailed e)), x') \<and>
                  transport_calls (trace x') = transport_calls (trace x)))"
proof -
  let ?y = "x3\<lparr>deferred := DeferClose r # deferred x3\<rparr>"
  note ab = attempt_success[OF s r rb ca body ok]
  have hy: "st_bytes (heap ?y) rawBody = bs"
    using keep read_body_data(1)[OF bd rb] by simp
  have tc: "transport_calls (trace ?y) = transport_calls (trace x)"
    using call_AfterResponse_calls[OF ca] read_body_trace(2)[OF rb] by simp
  have rl: "retry_loop L c mr ob out x0 = (res, x')"
    if "decode L out r rawBody ?y = Exit res x'" for res x'
    using retry_loop_after_retries[OF it] retry_loop_Exit[OF loop, of L mr ob out res x'] ab that
    by simp
  have dr: "DoRequest L c ctx method rawURL body out hdrs s = (res, run_deferred x')"
    if "decode L out r rawBody ?y = Exit res x'" for res x'
    using rl[OF that] by (simp add: DoRequest_def pr)
  show ?thesis
  proof (intro conjI allI impI)
    fix q assume "out = Some (StringPtr (Some q))"
    then show "\<exists>x'. DoRequest L c ctx method rawURL body out hdrs s = (Return (Some r) None, x') \<and>
                  st_strings (heap x') q = bs"
      using dr[OF decode_string[of L q r rawBody ?y, folded \<open>out = Some (StringPtr (Some q))\<close>]] hy
      by (simp add: run_deferred_def)
  next
    fix q v assume h: "out = Some (OtherPtr q) \<and> json_Unmarshal L bs (st_values (heap x3) q) = (None, v)"
    then have "json_Unmarshal L (st_bytes (heap ?y) rawBody) (st_values (heap ?y) q) = (None, v)"
      using hy by simp
    from decode_other[OF this, of r] h
    have "decode L out r rawBody ?y
            = Exit (Return (Some r) None)
                (?y\<lparr>heap := (heap ?y)\<lparr>st_values := (st_values (heap ?y))(q := v)\<rparr>,
                     trace := trace ?y @ [CallUnmarshal]\<rparr>)"
      by simp
    from dr[OF this]
    show "\<exists>x'. DoRequest L c ctx method rawURL body out hdrs s = (Return (Some r) None, x') \<and>
                  st_values (heap x') q = v"
      by (simp add: run_deferred_def)
  next
    fix q e v assume h: "out = Some (OtherPtr q) \<and>
                  json_Unmarshal L bs (st_values (heap x3) q) = (Some e, v)"
    then have "json_Unmarshal L (st_bytes (heap ?y) rawBody) (st_values (heap ?y) q) = (Some e, v)"
      using hy by simp
    from decode_other[OF this, of r] h
    have "decode L out r rawBody ?y
            = Exit (Return (Some r) (Some (DecodeResponseFailed e)))
                (?y\<lparr>heap := (heap ?y)\<lparr>st_values := (st_values (heap ?y))(q := v)\<rparr>,
                     trace := trace ?y @ [CallUnmarshal]\<rparr>)"
      by simp
    from dr[OF this] tc
    show "\<exists>x'. DoRequest L c ctx method rawURL body out hdrs s
                     = (Return (Some r) (Some (DecodeResponseFailed e)), x') \<and>
                  transport_calls (trace x') = transport_calls (trace x)"
      by (simp add: transport_calls_run_deferred transport_calls_append) (simp add: transport_calls_def)
  qed
qed

theorem DoRequest_decodes_witness:
  "(\<exists>x'. DoRequest test_lib ok_client None ''GET'' ''http://h/'' None (Some (StringPtr (Some 7))) None
            empty_store = (Return (Some 1) None, x') \<and>
         st_strings (heap x') 7 = ''ok'') \<and>
   (\<exists>x'. DoRequest number_lib number_client None ''GET'' ''http://h/'' None (Some (OtherPtr 7)) None
            empty_store = (Return (Some 1) None, x') \<and>
         st_values (heap x') 7 = ''42'') \<and>
   (\<exists>x'. DoRequest number_lib empty_body_client None ''GET'' ''http://h/'' None (Some (OtherPtr 7)) None
            empty_store
            = (Return (Some 1) (Some (DecodeResponseFailed (Err ''unexpected end of JSON input''))), x') \<and>
         length (transport_calls (trace x')) = 1) \<and>
   (\<exists>x'. DoRequest test_lib flaky_client None ''GET'' ''http://h/'' None (Some (StringPtr (Some 7))) None
            empty_store = (Return (Some 3) None, x') \<and>
         st_strings (heap x') 7 = ''ok'')"
proof -
  have "\<exists>xk x a x2 mr' x3.
          prepare test_lib ok_client None ''GET'' ''http://h/'' None None empty_store
            = Inr (get_request, [], get_state) \<and>
          after_retries 0 test_lib ok_client get_request [] (Some (StringPtr (Some 7))) get_state = Some xk \<and>
          sint (attempt xk) \<le> sint (maxRetries ok_client) \<and>
          send test_lib ok_client get_request [] xk = Inr x \<and> resp x = Some 1 \<and>
          http_Body (st_resp (heap x) 1) = Some (Reader ''ok'' None) \<and>
          read_body 1 x = Inr (a, x2) \<and>
          call_AfterResponse ok_client 1 a x2 = (None, mr', x3) \<and>
          st_bytes (heap x3) a = st_bytes (heap x2) a \<and>
          http_Body (st_resp (heap x3) 1) \<noteq> None \<and>
          200 \<le> sint (http_StatusCode (st_resp (heap x3) 1)) \<and>
          sint (http_StatusCode (st_resp (heap x3) 1)) < 300"
    by (simp add: run_defs decode_defs transport_calls_def)
  then obtain xk1 x1 a1 x21 mr1 x31 where
    pr1: "prepare test_lib ok_client None ''GET'' ''http://h/'' None None empty_store
            = Inr (get_request, [], get_state)"
    and it1: "after_retries 0 test_lib ok_client get_request [] (Some (StringPtr (Some 7))) get_state = Some xk1"
    and loop1: "sint (attempt xk1) \<le> sint (maxRetries ok_client)"
    and s1: "send test_lib ok_client get_request [] xk1 = Inr x1" and r1: "resp x1 = Some 1"
    and bd1: "http_Body (st_resp (heap x1) 1) = Some (Reader ''ok'' None)"
    and rb1: "read_body 1 x1 = Inr (a1, x21)"
    and ca1: "call_AfterResponse ok_client 1 a1 x21 = (None, mr1, x31)"
    and keep1: "st_bytes (heap x31) a1 = st_bytes (heap x21) a1"
    and body1: "http_Body (st_resp (heap x31) 1) \<noteq> None"
    and ok1: "200 \<le> sint (http_StatusCode (st_resp (heap x31) 1))"
            "sint (http_StatusCode (st_resp (heap x31) 1)) < 300"
    by blast
  note t1 = DoRequest_decodes[OF pr1 it1 loop1 s1 r1 bd1 rb1 ca1 keep1 body1 ok1]
  have "\<exists>xk x a x2 mr' x3.
          prepare number_lib number_client None ''GET'' ''http://h/'' None None empty_store
            = Inr (get_request, [], get_state) \<and>
          after_retries 0 number_lib number_client get_request [] (Some (OtherPtr 7)) get_state = Some xk \<and>
          sint (attempt xk) \<le> sint (maxRetries number_client) \<and>
          send number_lib number_client get_request [] xk = Inr x \<and> resp x = Some 1 \<and>
          http_Body (st_resp (heap x) 1) = Some (Reader ''42'' None) \<and>
          read_body 1 x = Inr (a, x2) \<and>
          call_AfterResponse number_client 1 a x2 = (None, mr', x3) \<and>
          st_bytes (heap x3) a = st_bytes (heap x2) a \<and>
          http_Body (st_resp (heap x3) 1) \<noteq> None \<and>
          200 \<le> sint (http_StatusCode (st_resp (heap x3) 1)) \<and>
          sint (http_StatusCode (st_resp (heap x3) 1)) < 300 \<and>
          json_Unmarshal number_lib ''42'' (st_values (heap x3) 7) = (None, ''42'')"
    by (simp add: run_defs decode_defs transport_calls_def)
  then obtain xk2 x2 a2 x22 mr2 x32 where
    pr2: "prepare number_lib number_client None ''GET'' ''http://h/'' None None empty_store
            = Inr (get_request, [], get_state)"
    and it2: "after_retries 0 number_lib number_client get_request [] (Some (OtherPtr 7)) get_state = Some xk2"
    and loop2: "sint (attempt xk2) \<le> sint (maxRetries number_client)"
    and s2: "send number_lib number_client get_request [] xk2 = Inr x2" and r2: "resp x2 = Some 1"
    and bd2: "http_Body (st_resp (heap x2) 1) = Some (Reader ''42'' None)"
    and rb2: "read_body 1 x2 = Inr (a2, x22)"
    and ca2: "call_AfterResponse number_client 1 a2 x22 = (None, mr2, x32)"
    and keep2: "st_bytes (heap x32) a2 = st_bytes (heap x22) a2"
    and body2: "http_Body (st_resp (heap x32) 1) \<noteq> None"
    and ok2: "200 \<le> sint (http_StatusCode (st_resp (heap x32) 1))"
            "sint (http_StatusCode (st_resp (heap x32) 1)) < 300"
    and um2: "json_Unmarshal number_lib ''42'' (st_values (heap x32) 7) = (None, ''42'')"
    by blast
  note t2 = DoRequest_decodes[OF pr2 it2 loop2 s2 r2 bd2 rb2 ca2 keep2 body2 ok2]
  have "\<exists>xk x a x2 mr' x3.
          prepare number_lib empty_body_client None ''GET'' ''http://h/'' None None empty_store
            = Inr (get_request, [], get_state) \<and>
          after_retries 0 number_lib empty_body_client get_request [] (Some (OtherPtr 7)) get_state = Some xk \<and>
          sint (attempt xk) \<le> sint (maxRetries empty_body_client) \<and>
          send number_lib empty_body_client get_request [] xk = Inr x \<and> resp x = Some 1 \<and>
          http_Body (st_resp (heap x) 1) = Some (Reader [] None) \<and>
          read_body 1 x = Inr (a, x2) \<and>
          call_AfterResponse empty_body_client 1 a x2 = (None, mr', x3) \<and>
          st_bytes (heap x3) a = st_bytes (heap x2) a \<and>
          http_Body (st_resp (heap x3) 1) \<noteq> None \<and>
          200 \<le> sint (http_StatusCode (st_resp (heap x3) 1)) \<and>
          sint (http_StatusCode (st_resp (heap x3) 1)) < 300 \<and>
          json_Unmarshal number_lib [] (st_values (heap x3) 7)
            = (Some (Err ''unexpected end of JSON input''), []) \<and>
          length (transport_calls (trace x)) = 1"
    by (simp add: run_defs decode_defs transport_calls_def)
  then obtain xk3 x3 a3 x23 mr3 x33 where
    pr3: "prepare number_lib empty_body_client None ''GET'' ''http://h/'' None None empty_store
            = Inr (get_request, [], get_state)"
    and it3: "after_retries 0 number_lib empty_body_client get_request [] (Some (OtherPtr 7)) get_state = Some xk3"
    and loop3: "sint (attempt xk3) \<le> sint (maxRetries empty_body_client)"
    and s3: "send number_lib empty_body_client get_request [] xk3 = Inr x3" and r3: "resp x3 = Some 1"
    and bd3: "http_Body (st_resp (heap x3) 1) = Some (Reader [] None)"
    and rb3: "read_body 1 x3 = Inr (a3, x23)"
    and ca3: "call_AfterResponse empty_body_client 1 a3 x23 = (None, mr3, x33)"
    and keep3: "st_bytes (heap x33) a3 = st_bytes (heap x23) a3"
    and body3: "http_Body (st_resp (heap x33) 1) \<noteq> None"
    and ok3: "200 \<le> sint (http_StatusCode (st_resp (heap x33) 1))"
            "sint (http_StatusCode (st_resp (heap x33) 1)) < 300"
    and um3: "json_Unmarshal number_lib [] (st_values (heap x33) 7)
            = (Some (Err ''unexpected end of JSON input''), [])"
    and one3: "length (transport_calls (trace x3)) = 1"
    by blast
  note t3 = DoRequest_decodes[OF pr3 it3 loop3 s3 r3 bd3 rb3 ca3 keep3 body3 ok3]
  have "\<exists>xk x a x2 mr' x3.
          prepare test_lib flaky_client None ''GET'' ''http://h/'' None None empty_store
            = Inr (get_request, [], get_state) \<and>
          after_retries (Suc 0) test_lib flaky_client get_request [] (Some (StringPtr (Some 7))) get_state = Some xk \<and>
          sint (attempt xk) \<le> sint (maxRetries flaky_client) \<and>
          send test_lib flaky_client get_request [] xk = Inr x \<and> resp x = Some 3 \<and>
          http_Body (st_resp (heap x) 3) = Some (Reader ''ok'' None) \<and>
          read_body 3 x = Inr (a, x2) \<and>
          call_AfterResponse flaky_client 3 a x2 = (None, mr', x3) \<and>
          st_bytes (heap x3) a = st_bytes (heap x2) a \<and>
          http_Body (st_resp (heap x3) 3) \<noteq> None \<and>
          200 \<le> sint (http_StatusCode (st_resp (heap x3) 3)) \<and>
          sint (http_StatusCode (st_resp (heap x3) 3)) < 300"
    by (simp add: run_defs decode_defs transport_calls_def)
  then obtain xk4 x4 a4 x24 mr4 x34 where
    pr4: "prepare test_lib flaky_client None ''GET'' ''http://h/'' None None empty_store
            = Inr (get_request, [], get_state)"
    and it4: "after_retries (Suc 0) test_lib flaky_client get_request [] (Some (StringPtr (Some 7))) get_state = Some xk4"
    and loop4: "sint (attempt xk4) \<le> sint (maxRetries flaky_client)"
    and s4: "send test_lib flaky_client get_request [] xk4 = Inr x4" and r4: "resp x4 = Some 3"
    and bd4: "http_Body (st_resp (heap x4) 3) = Some (Reader ''ok'' None)"
    and rb4: "read_body 3 x4 = Inr (a4, x24)"
    and ca4: "call_AfterResponse flaky_client 3 a4 x24 = (None, mr4, x34)"
    and keep4: "st_bytes (heap x34) a4 = st_bytes (heap x24) a4"
    and body4: "http_Body (st_resp (heap x34) 3) \<noteq> None"
    and ok4: "200 \<le> sint (http_StatusCode (st_resp (heap x34) 3))"
            "sint (http_StatusCode (st_resp (heap x34) 3)) < 300"
    by blast
  note t4 = DoRequest_decodes[OF pr4 it4 loop4 s4 r4 bd4 rb4 ca4 keep4 body4 ok4]
  note w1 = t1[THEN conjunct1, rule_format, OF refl]
  note w2 = t2[THEN conjunct2, THEN conjunct1, rule_format, OF conjI[OF refl um2]]
  from t3[THEN conjunct2, THEN conjunct2, rule_format, OF conjI[OF refl um3]] one3
  have w3: "\<exists>x'. DoRequest number_lib empty_body_client None ''GET'' ''http://h/'' None (Some (OtherPtr 7)) None
            empty_store
            = (Return (Some 1) (Some (DecodeResponseFailed (Err ''unexpected end of JSON input''))), x') \<and>
         length (transport_calls (trace x')) = 1"
    by auto
  note w4 = t4[THEN conjunct1, rule_format, OF refl]
  from w1 w2 w3 w4 show ?thesis by simp
qed

text \<open>
  The claim without the conditions on the body and the hook fails: every call below
  gets a response with status 200 and has a string pointer as target. When the hook
  overwrites the first byte of \<open>Body\<close> in place, the transport's body \<open>ok\<close> arrives in the
  target as \<open>Xk\<close>, since the descriptor's \<open>Body\<close> and \<open>rawBody\<close> share their array. When the
  hook returns an error, or reading the body fails, the call returns that error and the
  target is left as it was. When the hook sets the \<open>Body\<close> of the raw response to \<open>nil\<close>,
  \<open>defer resp.Body.Close()\<close> panics.
\<close>

theorem DoRequest_decodes_counterexample:
  "fst (DoRequest test_lib scribbling_client None ''GET'' ''http://h/'' None (Some (StringPtr (Some 7)))
          None empty_store) = Return (Some 1) None \<and>
   st_strings (heap (snd (DoRequest test_lib scribbling_client None ''GET'' ''http://h/'' None
          (Some (StringPtr (Some 7))) None empty_store))) 7 = ''Xk'' \<and>
   fst (DoRequest test_lib vetoing_client None ''GET'' ''http://h/'' None (Some (StringPtr (Some 7)))
          None empty_store)
     = Return (Some 1) (Some (AfterResponseHookFailed (Err ''rate limited''))) \<and>
   st_strings (heap (snd (DoRequest test_lib vetoing_client None ''GET'' ''http://h/'' None
          (Some (StringPtr (Some 7))) None empty_store))) 7 = [] \<and>
   fst (DoRequest test_lib broken_body_client None ''GET'' ''http://h/'' None (Some (StringPtr (Some 7)))
          None empty_store)
     = Return (Some 1) (Some (ReadResponseBodyFailed (Err ''connection reset''))) \<and>
   st_strings (heap (snd (DoRequest test_lib broken_body_client None ''GET'' ''http://h/'' None
          (Some (StringPtr (Some 7))) None empty_store))) 7 = [] \<and>
   fst (DoRequest test_lib unsetting_client None ''GET'' ''http://h/'' None (Some (StringPtr (Some 7)))
          None empty_store) = Panic"
  by (simp add: run_defs retry_loop.simps decode_defs)

subsection \<open>A hook that reassigns the body field\<close>














subsection \<open>The client's default headers\<close>

lemma maps_logf: "untouched a c \<Longrightarrow> st_maps (heap (logf c l x)) a = st_maps (heap x) a"
  by (simp add: logf_def untouched_def split: option.splits)

lemma maps_backoff_sleep: "st_maps (heap (flow_state (backoff_sleep c x))) a = st_maps (heap x) a"
  by (simp add: backoff_sleep_def)

lemma maps_decode: "st_maps (heap (flow_state (decode L out r rb x))) a = st_maps (heap x) a"
  by (simp add: decode_def Let_def split: option.splits out_target.splits prod.splits)

lemma maps_after_hook: "st_maps (heap (flow_state (after_hook L c out r rb x))) a = st_maps (heap x) a"
  by (simp add: after_hook_def Let_def maps_backoff_sleep maps_decode set_http_Body_def
      split: option.splits prod.splits)

lemma maps_read_body:
  "read_body r x = Inl (res, x') \<Longrightarrow> st_maps (heap x') a = st_maps (heap x) a"
  "read_body r x = Inr (rb, x') \<Longrightarrow> st_maps (heap x') a = st_maps (heap x) a"
  by (auto simp: read_body_def new_bytes_def set_http_Body_def Let_def split: option.splits prod.splits)

lemma untouchedD:
  assumes "untouched a c"
  shows "client c = Some tr \<Longrightarrow> tr h req = (res, h') \<Longrightarrow> st_maps h' a = st_maps h a"
    and "BeforeRequest c = Some bh \<Longrightarrow> bh h m = (e, m', h') \<Longrightarrow> st_maps h' a = st_maps h a"
    and "AfterResponse c = Some ah \<Longrightarrow> ah h n = (e, n', h') \<Longrightarrow> st_maps h' a = st_maps h a"
proof -
  assume c: "client c = Some tr" and t: "tr h req = (res, h')"
  from assms c have "\<forall>h req. st_maps (snd (tr h req)) a = st_maps h a"
    by (simp add: untouched_def)
  from this[rule_format, of h req] t show "st_maps h' a = st_maps h a" by simp
next
  assume c: "BeforeRequest c = Some bh" and t: "bh h m = (e, m', h')"
  from assms c have "\<forall>h m. st_maps (snd (snd (bh h m))) a = st_maps h a"
    by (simp add: untouched_def)
  from this[rule_format, of h m] t show "st_maps h' a = st_maps h a" by simp
next
  assume c: "AfterResponse c = Some ah" and t: "ah h n = (e, n', h')"
  from assms c have "\<forall>h m. st_maps (snd (snd (ah h m))) a = st_maps h a"
    by (simp add: untouched_def)
  from this[rule_format, of h n] t show "st_maps h' a = st_maps h a" by simp
qed

lemma maps_call_AfterResponse:
  assumes "untouched a c" and "call_AfterResponse c r rb x = (e, m, x')"
  shows "st_maps (heap x') a = st_maps (heap x) a"
proof (cases "AfterResponse c")
  case None
  with assms(2) show ?thesis by (simp add: call_AfterResponse_def)
next
  case (Some ah)
  obtain e' m' h' where hk: "ah (heap x) (response_descriptor (heap x) r rb) = (e', m', h')"
    by (metis prod.exhaust)
  from untouchedD(3)[OF assms(1) Some hk] assms(2) show ?thesis
    by (auto simp: call_AfterResponse_def Some hk)
qed

lemma maps_on_response:
  assumes "untouched a c"
  shows "st_maps (heap (flow_state (on_response L c out x))) a = st_maps (heap x) a"
proof (cases "resp x")
  case None
  then show ?thesis by (simp add: on_response_def)
next
  case (Some r)
  show ?thesis
  proof (cases "read_body r x")
    case (Inl t)
    obtain res x1 where t: "t = (res, x1)" by (cases t)
    from maps_read_body(1)[OF Inl[unfolded t]] show ?thesis
      by (simp add: on_response_def Some Inl t)
  next
    case (Inr t)
    obtain rb x2 where t: "t = (rb, x2)" by (cases t)
    obtain e m x3 where ca: "call_AfterResponse c r rb x2 = (e, m, x3)" by (metis prod.exhaust)
    from maps_read_body(2)[OF Inr[unfolded t]] maps_call_AfterResponse[OF assms ca]
    have "st_maps (heap x3) a = st_maps (heap x) a" by simp
    then show ?thesis
      by (cases e) (simp_all add: on_response_def Some Inr t ca maps_after_hook)
  qed
qed

lemma maps_send:
  assumes "untouched a c"
  shows "send L c mr ob x = Inl f \<Longrightarrow> st_maps (heap (flow_state f)) a = st_maps (heap x) a"
    and "send L c mr ob x = Inr x2 \<Longrightarrow> st_maps (heap x2) a = st_maps (heap x) a"
proof -
  let ?x1 = "logf c (LogRequest (req_Method mr) (req_URL mr) (attempt x + 1)) x"
  have both: "(\<forall>f. send L c mr ob x = Inl f \<longrightarrow> st_maps (heap (flow_state f)) a = st_maps (heap x) a) \<and>
              (\<forall>x2. send L c mr ob x = Inr x2 \<longrightarrow> st_maps (heap x2) a = st_maps (heap x) a)"
  proof (cases "new_request L mr ob (heap x)")
    case (Inl err)
    then show ?thesis by (simp add: send_def)
  next
    case (Inr req)
    show ?thesis
    proof (cases "client c")
      case None
      then show ?thesis using maps_logf[OF assms, of _ x] by (simp add: send_def Inr Let_def)
    next
      case (Some tr)
      obtain p e h where d: "tr (heap ?x1) req = ((p, e), h)" by (metis prod.exhaust)
      from untouchedD(1)[OF assms Some d] maps_logf[OF assms]
      have h: "st_maps h a = st_maps (heap x) a" by simp
      show ?thesis
      proof (cases e)
        case None
        then show ?thesis using h by (simp add: send_def Inr Some d Let_def)
      next
        case (Some err)
        let ?x2 = "?x1\<lparr>heap := h, resp := p, trace := trace ?x1 @ [CallDo req p e]\<rparr>"
        have "send L c mr ob x
                = Inl (backoff_sleep c (logf c (LogRequestFailed err) (?x2\<lparr>lastErr := Some err\<rparr>)))"
          using Some by (simp add: send_def Inr \<open>client c = Some tr\<close> d Let_def)
        then show ?thesis
          using h by (simp add: maps_backoff_sleep maps_logf[OF assms])
      qed
    qed
  qed
  show "send L c mr ob x = Inl f \<Longrightarrow> st_maps (heap (flow_state f)) a = st_maps (heap x) a"
    using both by blast
  show "send L c mr ob x = Inr x2 \<Longrightarrow> st_maps (heap x2) a = st_maps (heap x) a"
    using both by blast
qed

lemma maps_attempt_body:
  assumes "untouched a c"
  shows "st_maps (heap (flow_state (attempt_body L c mr ob out x))) a = st_maps (heap x) a"
proof (cases "send L c mr ob x")
  case (Inl f)
  from maps_send(1)[OF assms Inl] show ?thesis by (simp add: attempt_body_def Inl)
next
  case (Inr x2)
  from maps_send(2)[OF assms Inr] maps_on_response[OF assms, of L out x2] show ?thesis
    by (simp add: attempt_body_def Inr)
qed

lemma maps_retry_loop:
  "untouched a c \<Longrightarrow> st_maps (heap (snd (retry_loop L c mr ob out x))) a = st_maps (heap x) a"
proof (induction L c mr ob out x rule: retry_loop.induct)
  case (1 L c mr ob out x)
  show ?case
  proof (cases "sint (attempt x) \<le> sint (maxRetries c)")
    case False
    then show ?thesis by (subst retry_loop.simps) simp
  next
    case True
    note step = maps_attempt_body[OF "1.prems", of L mr ob out x]
    show ?thesis
    proof (cases "attempt_body L c mr ob out x")
      case (Exit res x')
      then show ?thesis using True step by (subst retry_loop.simps) simp
    next
      case (Continue x')
      from "1.IH"[OF True Continue "1.prems"] step Continue True show ?thesis
        by (subst retry_loop.simps) simp
    qed
  qed
qed


lemma maps_run_BeforeRequest:
  assumes "untouched a c" and "run_BeforeRequest c mr x = (e, mr', x')"
  shows "st_maps (heap x') a = st_maps (heap x) a"
proof (cases "BeforeRequest c")
  case None
  with assms(2) show ?thesis by (simp add: run_BeforeRequest_def)
next
  case (Some bh)
  obtain e' m' h' where hk: "bh (heap x) mr = (e', m', h')" by (metis prod.exhaust)
  from untouchedD(2)[OF assms(1) Some hk] assms(2) show ?thesis
    by (auto simp: run_BeforeRequest_def Some hk)
qed

lemma maps_marshal_body:
  "marshal_body L mr x = Inl (res, x') \<Longrightarrow> heap x' = heap x"
  "marshal_body L mr x = Inr (ob, x') \<Longrightarrow> heap x' = heap x"
  by (auto simp: marshal_body_def Let_def split: option.splits sum.splits)

lemma maps_merge_headers:
  "a < st_next s \<Longrightarrow> merge_headers c hdrs s = (hdr, s') \<Longrightarrow> st_maps s' a = st_maps s a"
  by (auto simp: merge_headers_def make_map_def range_assign_maps)

lemma maps_pre_send:
  assumes u: "untouched a c" and a: "a < st_next s"
  shows "pre_send L c ctx method rawURL body hdrs s = Inl (res, x) \<Longrightarrow> st_maps (heap x) a = st_maps s a"
    and "pre_send L c ctx method rawURL body hdrs s = Inr (mr, x) \<Longrightarrow> st_maps (heap x) a = st_maps s a"
proof -
  have both: "(\<forall>res x. pre_send L c ctx method rawURL body hdrs s = Inl (res, x) \<longrightarrow>
                  st_maps (heap x) a = st_maps s a) \<and>
              (\<forall>mr x. pre_send L c ctx method rawURL body hdrs s = Inr (mr, x) \<longrightarrow>
                  st_maps (heap x) a = st_maps s a)"
  proof (cases "resolveURL L c rawURL")
    case (Inl err)
    then show ?thesis by (auto simp: pre_send_def entry_def)
  next
    case (Inr fullURL)
    obtain hdr s1 where mh: "merge_headers c hdrs s = (hdr, s1)" by (metis prod.exhaust)
    let ?x1 = "(entry ctx s)\<lparr>heap := s1\<rparr>"
    obtain e mr' x2 where rb: "run_BeforeRequest c (descriptor c ctx method fullURL hdr body) ?x1 = (e, mr', x2)"
      by (metis prod.exhaust)
    from maps_run_BeforeRequest[OF u rb] maps_merge_headers[OF a mh]
    have "st_maps (heap x2) a = st_maps s a" by simp
    then show ?thesis
      by (cases e) (auto simp: pre_send_def Inr mh rb)
  qed
  show "pre_send L c ctx method rawURL body hdrs s = Inl (res, x) \<Longrightarrow> st_maps (heap x) a = st_maps s a"
    using both by blast
  show "pre_send L c ctx method rawURL body hdrs s = Inr (mr, x) \<Longrightarrow> st_maps (heap x) a = st_maps s a"
    using both by blast
qed

lemma maps_DoRequest:
  assumes u: "untouched a c" and a: "a < st_next s"
  shows "st_maps (heap (snd (DoRequest L c ctx method rawURL body out hdrs s))) a = st_maps s a"
proof (cases "pre_send L c ctx method rawURL body hdrs s")
  case (Inl early)
  obtain res x where e: "early = (res, x)" by (cases early)
  from maps_pre_send(1)[OF u a Inl[unfolded e]] show ?thesis
    by (simp add: DoRequest_early[OF Inl[unfolded e]] run_deferred_def)
next
  case (Inr t)
  obtain mr x2 where t: "t = (mr, x2)" by (cases t)
  note ps = Inr[unfolded t]
  note m2 = maps_pre_send(2)[OF u a ps]
  show ?thesis
  proof (cases "marshal_body L mr x2")
    case (Inl early)
    obtain res x where e: "early = (res, x)" by (cases early)
    from maps_marshal_body(1)[OF Inl[unfolded e]] m2 show ?thesis
      by (simp add: DoRequest_marshal_failed[OF ps Inl[unfolded e]] run_deferred_def)
  next
    case m: (Inr t')
    obtain ob x3 where t': "t' = (ob, x3)" by (cases t')
    from maps_marshal_body(2)[OF m[unfolded t']] m2 maps_retry_loop[OF u, of L mr ob out x3]
    show ?thesis
      by (simp add: DoRequest_loop[OF ps m[unfolded t']] run_deferred_def)
  qed
qed

text \<open>
  C6. The merged map of \<open>DoRequest\<close> (the one its descriptor carries) gives every key of
  the per-call headers the per-call value and every other key what the client's defaults
  give it. The merge leaves the client's stored default map as it was (\<open>hdr\<close> is a fresh
  map), and so does the whole call when no collaborator writes to that map. Both maps are
  well-formed map objects of the store.
\<close>

theorem merge_headers_overrides:
  assumes "valid_map s (headers c)" and "valid_map s hdrs"
    and "merge_headers c hdrs s = (hdr, s')"
  shows "(\<forall>k v. map_lookup s hdrs k = Some v \<longrightarrow> map_of (st_maps s' hdr) k = Some v) \<and>
         (\<forall>k. map_lookup s hdrs k = None \<longrightarrow>
               map_of (st_maps s' hdr) k = map_lookup s (headers c) k) \<and>
         (\<forall>d. headers c = Some d \<longrightarrow>
               st_maps s' d = st_maps s d \<and>
               (untouched d c \<longrightarrow>
                  st_maps (heap (snd (DoRequest L c ctx method rawURL body out hdrs s))) d
                    = st_maps s d)) \<and>
         (\<forall>u. resolveURL L c rawURL = Inr u \<and> BeforeRequest c = None \<longrightarrow>
               (\<exists>x. pre_send L c ctx method rawURL body hdrs s
                       = Inr (descriptor c ctx method u hdr body, x) \<and> heap x = s'))"
proof -
  from assms(3) have hdr: "hdr = st_next s"
    and s': "s' = range_assign hdr hdrs (range_assign hdr (headers c)
               (s\<lparr>st_maps := (st_maps s)(st_next s := []), st_next := Suc (st_next s)\<rparr>))"
    by (auto simp: merge_headers_def make_map_def)
  have frame: "st_maps s' a = st_maps s a" if "a < st_next s" for a
    using that by (simp add: s' range_assign_maps hdr)
  have lookup: "map_of (st_maps s' hdr) = map_of (case headers c of None \<Rightarrow> [] | Some d \<Rightarrow> st_maps s d)
         ++ map_of (case hdrs of None \<Rightarrow> [] | Some p \<Rightarrow> st_maps s p)"
    using assms(1,2)
    by (auto simp: s' range_assign_maps hdr valid_map_def map_of_fold_update split: option.splits)
  have call: "st_maps (heap (snd (DoRequest L c ctx method rawURL body out hdrs s))) d = st_maps s d"
    if "headers c = Some d" "untouched d c" for d
    using that assms(1) maps_DoRequest[of d c s]
    by (simp add: valid_map_def)
  have desc: "\<exists>x. pre_send L c ctx method rawURL body hdrs s
                       = Inr (descriptor c ctx method u hdr body, x) \<and> heap x = s'"
    if "resolveURL L c rawURL = Inr u \<and> BeforeRequest c = None" for u
    using that assms(3) by (simp add: pre_send_def run_BeforeRequest_def)
  show ?thesis
    using frame assms(1) lookup call desc
    by (auto simp: map_lookup_def valid_map_def map_add_def split: option.splits)
qed

theorem merge_headers_overrides_witness:
  "valid_map header_store (headers header_client) \<and> valid_map header_store (Some 1) \<and>
   untouched 0 header_client \<and>
   map_of (st_maps (snd (merge_headers header_client (Some 1) header_store)) 2) ''Accept''
     = Some ''application/json'' \<and>
   map_of (st_maps (snd (merge_headers header_client (Some 1) header_store)) 2) ''X-Key''
     = Some ''k1'' \<and>
   st_maps (snd (merge_headers header_client (Some 1) header_store)) 0
     = [(''Accept'', ''text/plain''), (''X-Key'', ''k1'')] \<and>
   st_maps (heap (snd (DoRequest test_lib header_client None ''GET'' ''http://h/'' None None (Some 1)
       header_store))) 0
     = [(''Accept'', ''text/plain''), (''X-Key'', ''k1'')] \<and>
   (\<exists>x. pre_send test_lib header_client None ''GET'' ''http://h/'' None (Some 1) header_store
           = Inr (descriptor header_client None ''GET'' ''http://h/'' 2 None, x) \<and>
        heap x = snd (merge_headers header_client (Some 1) header_store))"
proof -
  have hc: "headers header_client = Some 0" and bn: "BeforeRequest header_client = None"
    by (simp_all add: header_client_def test_client_def)
  have v0: "valid_map header_store (headers header_client)"
    by (simp add: valid_map_def header_store_def hc)
  have v1: "valid_map header_store (Some 1)"
    by (simp add: valid_map_def header_store_def)
  have un: "untouched 0 header_client"
    by (simp add: untouched_def header_client_def test_client_def refuse_def)
  have m: "merge_headers header_client (Some 1) header_store
           = (2, snd (merge_headers header_client (Some 1) header_store))"
    by (simp add: merge_headers_def make_map_def header_store_def)
  have url: "resolveURL test_lib header_client ''http://h/'' = Inr ''http://h/''"
    by (simp add: resolveURL_def test_lib_def header_client_def test_client_def)
  have l1: "map_lookup header_store (Some 1) ''Accept'' = Some ''application/json''"
    and l2: "map_lookup header_store (Some 1) ''X-Key'' = None"
    and l3: "map_lookup header_store (headers header_client) ''X-Key'' = Some ''k1''"
    and l4: "st_maps header_store 0 = [(''Accept'', ''text/plain''), (''X-Key'', ''k1'')]"
    by (simp_all add: map_lookup_def header_store_def hc)
  note t = merge_headers_overrides[OF v0 v1 m, of test_lib None "''GET''" "''http://h/''" None None]
  from t[THEN conjunct1, rule_format, OF l1]
    t[THEN conjunct2, THEN conjunct1, rule_format, OF l2]
    t[THEN conjunct2, THEN conjunct2, THEN conjunct1, rule_format, OF hc]
    t[THEN conjunct2, THEN conjunct2, THEN conjunct2, rule_format, OF conjI[OF url bn]]
    l3 l4 v0 v1 un
  show ?thesis by simp
qed

end
